theory Spec2Isabelle
  imports Main "HOL-Library.Char_ord" "HOL-Library.List_Lexorder"
begin

section \<open>Persisted schema\<close>

text \<open>
  The tables of \<^verbatim>\<open>prisma/migrations/20250826131926_init/migration.sql\<close>, one record per
  table, one field per column. \<^verbatim>\<open>TEXT\<close> is \<open>string\<close>, a nullable column is an
  \<open>option\<close>, \<^verbatim>\<open>INTEGER\<close> is \<open>int\<close>, \<^verbatim>\<open>DATETIME\<close> is a point on a discrete time line.
\<close>

type_synonym datetime = nat

record user =
  user_id :: string
  user_email :: string
  user_name :: "string option"
  user_role :: string
  user_createdAt :: datetime
  user_updatedAt :: datetime

record cohort =
  cohort_id :: string
  cohort_name :: string
  cohort_description :: "string option"
  cohort_createdAt :: datetime
  cohort_updatedAt :: datetime

record contract =
  contract_id :: string
  contract_title :: string
  contract_cohortId :: string
  contract_createdAt :: datetime
  contract_updatedAt :: datetime

record clause =
  clause_id :: string
  clause_title :: string
  clause_content :: string
  clause_contractId :: string
  clause_userId :: string
  clause_createdAt :: datetime
  clause_updatedAt :: datetime

record amendment =
  amendment_id :: string
  amendment_content :: string
  amendment_userId :: string
  amendment_clauseId :: string
  amendment_status :: string
  amendment_createdAt :: datetime
  amendment_updatedAt :: datetime

record tension_measurement =
  tension_id :: string
  tension_value :: int
  tension_context :: "string option"
  tension_contractId :: string
  tension_userId :: string
  tension_createdAt :: datetime

record journal_entry =
  journal_id :: string
  journal_title :: string
  journal_content :: string
  journal_contractId :: string
  journal_userId :: string
  journal_tags :: string
  journal_createdAt :: datetime
  journal_updatedAt :: datetime

record failure_entry =
  failure_id :: string
  failure_title :: string
  failure_description :: string
  failure_lessons :: string
  failure_contractId :: string
  failure_userId :: string
  failure_createdAt :: datetime
  failure_updatedAt :: datetime

record iteration =
  iteration_id :: string
  iteration_description :: string
  iteration_outcome :: string
  iteration_failureEntryId :: string
  iteration_createdAt :: datetime
  iteration_updatedAt :: datetime

text \<open>
  A database state: every table is the list of its rows in storage order. A row of
  \<^verbatim>\<open>_CohortMembers\<close> is the pair of its columns \<^verbatim>\<open>A\<close> (a cohort) and \<^verbatim>\<open>B\<close> (a user).
\<close>

record db =
  users :: "user list"
  cohorts :: "cohort list"
  contracts :: "contract list"
  clauses :: "clause list"
  amendments :: "amendment list"
  tension_measurements :: "tension_measurement list"
  journal_entries :: "journal_entry list"
  failure_entries :: "failure_entry list"
  iterations :: "iteration list"
  cohort_members :: "(string \<times> string) list"

definition empty_db :: db where
  "empty_db = \<lparr>users = [], cohorts = [], contracts = [], clauses = [], amendments = [],
     tension_measurements = [], journal_entries = [], failure_entries = [], iterations = [],
     cohort_members = []\<rparr>"

subsection \<open>Foreign keys\<close>

datatype table = Users | Cohorts | Contracts | Clauses | Amendments | TensionMeasurements
  | JournalEntries | FailureEntries | Iterations | CohortMembers

datatype column = Id | CohortId | ContractId | UserId | ClauseId | FailureEntryId | ColA | ColB

datatype ref_action = Restrict | Cascade

record foreign_key =
  fk_name :: string
  fk_table :: table
  fk_column :: column
  fk_references :: table
  fk_on_delete :: ref_action
  fk_on_update :: ref_action

definition mk_fk :: "string \<Rightarrow> table \<Rightarrow> column \<Rightarrow> table \<Rightarrow> ref_action \<Rightarrow> ref_action \<Rightarrow> foreign_key" where
  "mk_fk n t c r del upd =
     \<lparr>fk_name = n, fk_table = t, fk_column = c, fk_references = r, fk_on_delete = del,
      fk_on_update = upd\<rparr>"

text \<open>Every \<^verbatim>\<open>CONSTRAINT ... FOREIGN KEY\<close> of the migration, in file order. Each one
  references the \<^verbatim>\<open>"id"\<close> column of its target table.\<close>

definition foreign_keys :: "foreign_key list" where
  "foreign_keys =
    [mk_fk ''contracts_cohortId_fkey'' Contracts CohortId Cohorts Restrict Cascade,
     mk_fk ''clauses_contractId_fkey'' Clauses ContractId Contracts Restrict Cascade,
     mk_fk ''clauses_userId_fkey'' Clauses UserId Users Restrict Cascade,
     mk_fk ''amendments_userId_fkey'' Amendments UserId Users Restrict Cascade,
     mk_fk ''amendments_clauseId_fkey'' Amendments ClauseId Clauses Restrict Cascade,
     mk_fk ''tension_measurements_contractId_fkey'' TensionMeasurements ContractId Contracts
       Restrict Cascade,
     mk_fk ''tension_measurements_userId_fkey'' TensionMeasurements UserId Users Restrict Cascade,
     mk_fk ''journal_entries_contractId_fkey'' JournalEntries ContractId Contracts Restrict Cascade,
     mk_fk ''journal_entries_userId_fkey'' JournalEntries UserId Users Restrict Cascade,
     mk_fk ''failure_entries_contractId_fkey'' FailureEntries ContractId Contracts Restrict Cascade,
     mk_fk ''failure_entries_userId_fkey'' FailureEntries UserId Users Restrict Cascade,
     mk_fk ''iterations_failureEntryId_fkey'' Iterations FailureEntryId FailureEntries
       Restrict Cascade,
     mk_fk ''_CohortMembers_A_fkey'' CohortMembers ColA Cohorts Cascade Cascade,
     mk_fk ''_CohortMembers_B_fkey'' CohortMembers ColB Users Cascade Cascade]"

text \<open>The values that the rows of a table hold in a column, in storage order
  (empty for a column the table does not have).\<close>

definition column_values :: "db \<Rightarrow> table \<Rightarrow> column \<Rightarrow> string list" where
  "column_values d t c =
     (case t of
        Users \<Rightarrow> (case c of Id \<Rightarrow> map user_id (users d) | _ \<Rightarrow> [])
      | Cohorts \<Rightarrow> (case c of Id \<Rightarrow> map cohort_id (cohorts d) | _ \<Rightarrow> [])
      | Contracts \<Rightarrow>
          (case c of Id \<Rightarrow> map contract_id (contracts d)
           | CohortId \<Rightarrow> map contract_cohortId (contracts d) | _ \<Rightarrow> [])
      | Clauses \<Rightarrow>
          (case c of Id \<Rightarrow> map clause_id (clauses d)
           | ContractId \<Rightarrow> map clause_contractId (clauses d)
           | UserId \<Rightarrow> map clause_userId (clauses d) | _ \<Rightarrow> [])
      | Amendments \<Rightarrow>
          (case c of Id \<Rightarrow> map amendment_id (amendments d)
           | UserId \<Rightarrow> map amendment_userId (amendments d)
           | ClauseId \<Rightarrow> map amendment_clauseId (amendments d) | _ \<Rightarrow> [])
      | TensionMeasurements \<Rightarrow>
          (case c of Id \<Rightarrow> map tension_id (tension_measurements d)
           | ContractId \<Rightarrow> map tension_contractId (tension_measurements d)
           | UserId \<Rightarrow> map tension_userId (tension_measurements d) | _ \<Rightarrow> [])
      | JournalEntries \<Rightarrow>
          (case c of Id \<Rightarrow> map journal_id (journal_entries d)
           | ContractId \<Rightarrow> map journal_contractId (journal_entries d)
           | UserId \<Rightarrow> map journal_userId (journal_entries d) | _ \<Rightarrow> [])
      | FailureEntries \<Rightarrow>
          (case c of Id \<Rightarrow> map failure_id (failure_entries d)
           | ContractId \<Rightarrow> map failure_contractId (failure_entries d)
           | UserId \<Rightarrow> map failure_userId (failure_entries d) | _ \<Rightarrow> [])
      | Iterations \<Rightarrow>
          (case c of Id \<Rightarrow> map iteration_id (iterations d)
           | FailureEntryId \<Rightarrow> map iteration_failureEntryId (iterations d) | _ \<Rightarrow> [])
      | CohortMembers \<Rightarrow>
          (case c of ColA \<Rightarrow> map fst (cohort_members d)
           | ColB \<Rightarrow> map snd (cohort_members d) | _ \<Rightarrow> []))"

text \<open>\<^verbatim>\<open>DELETE FROM t WHERE c = v\<close>, without any constraint check.\<close>

definition delete_where :: "db \<Rightarrow> table \<Rightarrow> column \<Rightarrow> string \<Rightarrow> db" where
  "delete_where d t c v =
     (case t of
        Users \<Rightarrow>
          (case c of Id \<Rightarrow> d\<lparr>users := filter (\<lambda>r. user_id r \<noteq> v) (users d)\<rparr> | _ \<Rightarrow> d)
      | Cohorts \<Rightarrow>
          (case c of Id \<Rightarrow> d\<lparr>cohorts := filter (\<lambda>r. cohort_id r \<noteq> v) (cohorts d)\<rparr> | _ \<Rightarrow> d)
      | Contracts \<Rightarrow>
          (case c of Id \<Rightarrow> d\<lparr>contracts := filter (\<lambda>r. contract_id r \<noteq> v) (contracts d)\<rparr>
           | CohortId \<Rightarrow> d\<lparr>contracts := filter (\<lambda>r. contract_cohortId r \<noteq> v) (contracts d)\<rparr>
           | _ \<Rightarrow> d)
      | Clauses \<Rightarrow>
          (case c of Id \<Rightarrow> d\<lparr>clauses := filter (\<lambda>r. clause_id r \<noteq> v) (clauses d)\<rparr>
           | ContractId \<Rightarrow> d\<lparr>clauses := filter (\<lambda>r. clause_contractId r \<noteq> v) (clauses d)\<rparr>
           | UserId \<Rightarrow> d\<lparr>clauses := filter (\<lambda>r. clause_userId r \<noteq> v) (clauses d)\<rparr>
           | _ \<Rightarrow> d)
      | Amendments \<Rightarrow>
          (case c of Id \<Rightarrow> d\<lparr>amendments := filter (\<lambda>r. amendment_id r \<noteq> v) (amendments d)\<rparr>
           | UserId \<Rightarrow> d\<lparr>amendments := filter (\<lambda>r. amendment_userId r \<noteq> v) (amendments d)\<rparr>
           | ClauseId \<Rightarrow>
               d\<lparr>amendments := filter (\<lambda>r. amendment_clauseId r \<noteq> v) (amendments d)\<rparr>
           | _ \<Rightarrow> d)
      | TensionMeasurements \<Rightarrow>
          (case c of
             Id \<Rightarrow>
               d\<lparr>tension_measurements := filter (\<lambda>r. tension_id r \<noteq> v) (tension_measurements d)\<rparr>
           | ContractId \<Rightarrow>
               d\<lparr>tension_measurements :=
                   filter (\<lambda>r. tension_contractId r \<noteq> v) (tension_measurements d)\<rparr>
           | UserId \<Rightarrow>
               d\<lparr>tension_measurements :=
                   filter (\<lambda>r. tension_userId r \<noteq> v) (tension_measurements d)\<rparr>
           | _ \<Rightarrow> d)
      | JournalEntries \<Rightarrow>
          (case c of
             Id \<Rightarrow> d\<lparr>journal_entries := filter (\<lambda>r. journal_id r \<noteq> v) (journal_entries d)\<rparr>
           | ContractId \<Rightarrow>
               d\<lparr>journal_entries := filter (\<lambda>r. journal_contractId r \<noteq> v) (journal_entries d)\<rparr>
           | UserId \<Rightarrow>
               d\<lparr>journal_entries := filter (\<lambda>r. journal_userId r \<noteq> v) (journal_entries d)\<rparr>
           | _ \<Rightarrow> d)
      | FailureEntries \<Rightarrow>
          (case c of
             Id \<Rightarrow> d\<lparr>failure_entries := filter (\<lambda>r. failure_id r \<noteq> v) (failure_entries d)\<rparr>
           | ContractId \<Rightarrow>
               d\<lparr>failure_entries := filter (\<lambda>r. failure_contractId r \<noteq> v) (failure_entries d)\<rparr>
           | UserId \<Rightarrow>
               d\<lparr>failure_entries := filter (\<lambda>r. failure_userId r \<noteq> v) (failure_entries d)\<rparr>
           | _ \<Rightarrow> d)
      | Iterations \<Rightarrow>
          (case c of Id \<Rightarrow> d\<lparr>iterations := filter (\<lambda>r. iteration_id r \<noteq> v) (iterations d)\<rparr>
           | FailureEntryId \<Rightarrow>
               d\<lparr>iterations := filter (\<lambda>r. iteration_failureEntryId r \<noteq> v) (iterations d)\<rparr>
           | _ \<Rightarrow> d)
      | CohortMembers \<Rightarrow>
          (case c of ColA \<Rightarrow> d\<lparr>cohort_members := filter (\<lambda>r. fst r \<noteq> v) (cohort_members d)\<rparr>
           | ColB \<Rightarrow> d\<lparr>cohort_members := filter (\<lambda>r. snd r \<noteq> v) (cohort_members d)\<rparr>
           | _ \<Rightarrow> d))"

text \<open>The errors a Prisma client call can throw on this schema (the storage engine
  being reachable): a rejected argument, a record that a \<^verbatim>\<open>where\<close> or \<^verbatim>\<open>connect\<close> does not
  find, a violated primary key or foreign key, a required relation with no row behind it.\<close>

datatype prisma_error = ValidationError | RecordNotFound | UniqueConstraintViolation
  | ForeignKeyConstraintViolation | InconsistentResult

text \<open>The rows that a foreign key makes depend on row \<open>i\<close> of table \<open>t\<close>.\<close>

definition referencing :: "db \<Rightarrow> foreign_key \<Rightarrow> table \<Rightarrow> string \<Rightarrow> bool" where
  "referencing d fk t i \<longleftrightarrow>
     fk_references fk = t \<and> i \<in> set (column_values d (fk_table fk) (fk_column fk))"

definition cascade_delete :: "table \<Rightarrow> string \<Rightarrow> foreign_key \<Rightarrow> db \<Rightarrow> db" where
  "cascade_delete t i fk d =
     (if fk_references fk = t \<and> fk_on_delete fk = Cascade
      then delete_where d (fk_table fk) (fk_column fk) i else d)"

text \<open>
  Deleting the row with primary key \<open>i\<close> from table \<open>t\<close> under the foreign keys of the
  schema: the row must exist; a \<^verbatim>\<open>RESTRICT\<close> key with a referencing row rejects the delete;
  a \<^verbatim>\<open>CASCADE\<close> key deletes its referencing rows with it. No foreign key references the
  only table with cascading keys (\<^verbatim>\<open>_CohortMembers\<close>), so one level of cascade is all
  there is.
\<close>

definition delete_row :: "db \<Rightarrow> table \<Rightarrow> string \<Rightarrow> prisma_error + db" where
  "delete_row d t i =
     (if i \<notin> set (column_values d t Id) then Inl RecordNotFound
      else if \<exists>fk \<in> set foreign_keys. fk_on_delete fk = Restrict \<and> referencing d fk t i
      then Inl ForeignKeyConstraintViolation
      else Inr (delete_where (fold (cascade_delete t i) foreign_keys d) t Id i))"

section \<open>The Prisma client calls of the route handlers\<close>

text \<open>
  What a request takes from its environment: the clock that fills \<^verbatim>\<open>createdAt\<close> and
  \<^verbatim>\<open>updatedAt\<close>, and the generator of primary keys (\<open>env_cuid e k\<close> is the primary
  key of the \<open>k\<close>-th row that the request inserts).
\<close>

record env =
  env_now :: datetime
  env_cuid :: "nat \<Rightarrow> string"

text \<open>A field destructured from \<^verbatim>\<open>req.body\<close>, which is untyped JSON: absent
  (\<^verbatim>\<open>undefined\<close>), a string, an object \<^verbatim>\<open>{ set: s }\<close> with a string \<open>s\<close>, or any
  other value. Where a record is created or connected only a string is accepted; in the
  \<^verbatim>\<open>data\<close> of an update \<^verbatim>\<open>{ set: s }\<close> is accepted too and writes \<open>s\<close>.\<close>

datatype field = Missing | Other | Text string | SetText string

subsection \<open>Inserts\<close>

definition insert_contract :: "db \<Rightarrow> contract \<Rightarrow> prisma_error + db" where
  "insert_contract d r =
     (if contract_id r \<in> set (column_values d Contracts Id) then Inl UniqueConstraintViolation
      else if contract_cohortId r \<notin> set (column_values d Cohorts Id)
      then Inl ForeignKeyConstraintViolation
      else Inr (d\<lparr>contracts := contracts d @ [r]\<rparr>))"

definition insert_clause :: "db \<Rightarrow> clause \<Rightarrow> prisma_error + db" where
  "insert_clause d r =
     (if clause_id r \<in> set (column_values d Clauses Id) then Inl UniqueConstraintViolation
      else if clause_contractId r \<notin> set (column_values d Contracts Id)
            \<or> clause_userId r \<notin> set (column_values d Users Id)
      then Inl ForeignKeyConstraintViolation
      else Inr (d\<lparr>clauses := clauses d @ [r]\<rparr>))"

text \<open>The values of an \<^verbatim>\<open>INSERT INTO "amendments"\<close>. The columns \<^verbatim>\<open>status\<close> and
  \<^verbatim>\<open>createdAt\<close> have a \<^verbatim>\<open>DEFAULT\<close>, so a statement may leave them out (\<open>None\<close>).\<close>

record amendment_values =
  ins_id :: string
  ins_content :: string
  ins_userId :: string
  ins_clauseId :: string
  ins_status :: "string option"
  ins_createdAt :: "datetime option"
  ins_updatedAt :: datetime

definition amendment_status_default :: string where
  "amendment_status_default = ''PENDING''"

definition amendment_row :: "env \<Rightarrow> amendment_values \<Rightarrow> amendment" where
  "amendment_row e v =
     \<lparr>amendment_id = ins_id v, amendment_content = ins_content v,
      amendment_userId = ins_userId v, amendment_clauseId = ins_clauseId v,
      amendment_status = (case ins_status v of None \<Rightarrow> amendment_status_default | Some s \<Rightarrow> s),
      amendment_createdAt = (case ins_createdAt v of None \<Rightarrow> env_now e | Some t \<Rightarrow> t),
      amendment_updatedAt = ins_updatedAt v\<rparr>"

definition insert_amendment :: "env \<Rightarrow> db \<Rightarrow> amendment_values \<Rightarrow> prisma_error + db" where
  "insert_amendment e d v =
     (if ins_id v \<in> set (column_values d Amendments Id) then Inl UniqueConstraintViolation
      else if ins_userId v \<notin> set (column_values d Users Id)
            \<or> ins_clauseId v \<notin> set (column_values d Clauses Id)
      then Inl ForeignKeyConstraintViolation
      else Inr (d\<lparr>amendments := amendments d @ [amendment_row e v]\<rparr>))"

subsection \<open>Reads with \<^verbatim>\<open>include\<close> and \<^verbatim>\<open>select\<close>\<close>

text \<open>\<^verbatim>\<open>select: { id: true, name: true, email: true }\<close> on a user.\<close>

record user_summary =
  us_id :: string
  us_name :: "string option"
  us_email :: string

definition select_user :: "user \<Rightarrow> user_summary" where
  "select_user u = \<lparr>us_id = user_id u, us_name = user_name u, us_email = user_email u\<rparr>"

definition find_user :: "db \<Rightarrow> string \<Rightarrow> user option" where
  "find_user d i = find (\<lambda>u. user_id u = i) (users d)"

definition find_cohort :: "db \<Rightarrow> string \<Rightarrow> cohort option" where
  "find_cohort d i = find (\<lambda>h. cohort_id h = i) (cohorts d)"

definition find_contract :: "db \<Rightarrow> string \<Rightarrow> contract option" where
  "find_contract d i = find (\<lambda>c. contract_id c = i) (contracts d)"

text \<open>
  The objects the handlers send back: a row together with the relations its query
  includes. A relation that a query does not include is \<open>None\<close>; the relations every
  query of the router includes are plain fields.
\<close>

record amendment_view =
  av_row :: amendment
  av_proposedBy :: "user_summary option"

record clause_view =
  cv_row :: clause
  cv_amendments :: "amendment_view list option"
  cv_createdBy :: user_summary

record cohort_view =
  hv_row :: cohort
  hv_members :: "user_summary list option"

record contract_view =
  kv_row :: contract
  kv_clauses :: "clause_view list"
  kv_cohort :: cohort_view

text \<open>How a query includes the amendments of a clause: not at all, as rows
  (\<^verbatim>\<open>amendments: true\<close>), or with \<^verbatim>\<open>proposedBy\<close>.\<close>

datatype amendments_include = NoAmendments | AmendmentRows | AmendmentsWithProposedBy

text \<open>The amendments of a clause. No query of the router gives an \<^verbatim>\<open>orderBy\<close>: the rows
  come in storage order.\<close>

definition amendments_of :: "db \<Rightarrow> clause \<Rightarrow> amendment list" where
  "amendments_of d c = filter (\<lambda>a. amendment_clauseId a = clause_id c) (amendments d)"

definition clauses_of :: "db \<Rightarrow> contract \<Rightarrow> clause list" where
  "clauses_of d c = filter (\<lambda>l. clause_contractId l = contract_id c) (clauses d)"

text \<open>The members of a cohort. The rows of \<^verbatim>\<open>_CohortMembers\<close> with \<^verbatim>\<open>A\<close> the cohort
  are read through the unique index \<^verbatim>\<open>_CohortMembers_AB_unique\<close> on \<^verbatim>\<open>("A", "B")\<close>, so
  they come in ascending order of \<^verbatim>\<open>B\<close>, the user's id (strings compared byte by byte),
  whatever their storage order.\<close>

definition members_of :: "db \<Rightarrow> cohort \<Rightarrow> user_summary list" where
  "members_of d h =
     List.map_filter (\<lambda>m. map_option select_user (find_user d (snd m)))
       (sort_key snd (filter (\<lambda>m. fst m = cohort_id h) (cohort_members d)))"

text \<open>Loading a required relation whose row is missing makes the client throw; the
  loaders return \<open>None\<close> then.\<close>

definition include_proposedBy :: "db \<Rightarrow> amendment \<Rightarrow> amendment_view option" where
  "include_proposedBy d a =
     map_option (\<lambda>u. \<lparr>av_row = a, av_proposedBy = Some (select_user u)\<rparr>)
       (find_user d (amendment_userId a))"

definition load_clause :: "db \<Rightarrow> amendments_include \<Rightarrow> clause \<Rightarrow> clause_view option" where
  "load_clause d inc c =
     (case find_user d (clause_userId c) of
        None \<Rightarrow> None
      | Some u \<Rightarrow>
          (case inc of
             NoAmendments \<Rightarrow>
               Some \<lparr>cv_row = c, cv_amendments = None, cv_createdBy = select_user u\<rparr>
           | AmendmentRows \<Rightarrow>
               Some \<lparr>cv_row = c,
                     cv_amendments =
                       Some (map (\<lambda>a. \<lparr>av_row = a, av_proposedBy = None\<rparr>) (amendments_of d c)),
                     cv_createdBy = select_user u\<rparr>
           | AmendmentsWithProposedBy \<Rightarrow>
               (case those (map (include_proposedBy d) (amendments_of d c)) of
                  None \<Rightarrow> None
                | Some avs \<Rightarrow>
                    Some \<lparr>cv_row = c, cv_amendments = Some avs, cv_createdBy = select_user u\<rparr>)))"

definition load_cohort :: "db \<Rightarrow> bool \<Rightarrow> cohort \<Rightarrow> cohort_view" where
  "load_cohort d with_members h =
     \<lparr>hv_row = h, hv_members = (if with_members then Some (members_of d h) else None)\<rparr>"

definition load_contract ::
  "db \<Rightarrow> amendments_include \<Rightarrow> bool \<Rightarrow> contract \<Rightarrow> contract_view option" where
  "load_contract d inc with_members c =
     (case find_cohort d (contract_cohortId c) of
        None \<Rightarrow> None
      | Some h \<Rightarrow>
          (case those (map (load_clause d inc) (clauses_of d c)) of
             None \<Rightarrow> None
           | Some cvs \<Rightarrow>
               Some \<lparr>kv_row = c, kv_clauses = cvs, kv_cohort = load_cohort d with_members h\<rparr>))"

subsection \<open>Writes\<close>

text \<open>\<^verbatim>\<open>prisma.clause.create\<close> with \<^verbatim>\<open>contract: { connect: { id } }\<close> and
  \<^verbatim>\<open>createdBy: { connect: { id: userId } }\<close>; \<open>i\<close> is the generated primary key.\<close>

definition clause_create ::
  "env \<Rightarrow> db \<Rightarrow> string \<Rightarrow> field \<Rightarrow> field \<Rightarrow> string \<Rightarrow> field \<Rightarrow> prisma_error + db \<times> clause" where
  "clause_create e d i title content contractId userId =
     (case (title, content, userId) of
        (Text t, Text c, Text u) \<Rightarrow>
          (if contractId \<notin> set (column_values d Contracts Id)
              \<or> u \<notin> set (column_values d Users Id)
           then Inl RecordNotFound
           else
             (let r = \<lparr>clause_id = i, clause_title = t, clause_content = c,
                       clause_contractId = contractId, clause_userId = u,
                       clause_createdAt = env_now e, clause_updatedAt = env_now e\<rparr>
              in case insert_clause d r of Inl err \<Rightarrow> Inl err | Inr d' \<Rightarrow> Inr (d', r)))
      | _ \<Rightarrow> Inl ValidationError)"

text \<open>\<^verbatim>\<open>prisma.amendment.create\<close> as the router calls it: \<^verbatim>\<open>data\<close> holds \<^verbatim>\<open>content\<close>
  and the two \<^verbatim>\<open>connect\<close>s and nothing else, so the insert leaves \<^verbatim>\<open>status\<close> and
  \<^verbatim>\<open>createdAt\<close> to their defaults.\<close>

definition amendment_create ::
  "env \<Rightarrow> db \<Rightarrow> field \<Rightarrow> field \<Rightarrow> field \<Rightarrow> prisma_error + db \<times> amendment" where
  "amendment_create e d content clauseId userId =
     (case (content, clauseId, userId) of
        (Text c, Text l, Text u) \<Rightarrow>
          (if l \<notin> set (column_values d Clauses Id) \<or> u \<notin> set (column_values d Users Id)
           then Inl RecordNotFound
           else
             (let v = \<lparr>ins_id = env_cuid e 0, ins_content = c, ins_userId = u, ins_clauseId = l,
                       ins_status = None, ins_createdAt = None, ins_updatedAt = env_now e\<rparr>
              in case insert_amendment e d v of
                   Inl err \<Rightarrow> Inl err
                 | Inr d' \<Rightarrow> Inr (d', amendment_row e v)))
      | _ \<Rightarrow> Inl ValidationError)"

text \<open>\<^verbatim>\<open>prisma.contract.update\<close> with \<^verbatim>\<open>data: { title }\<close>. A string and
  \<^verbatim>\<open>{ set: s }\<close> both write the title and \<^verbatim>\<open>updatedAt\<close>. An \<^verbatim>\<open>undefined\<close> title is a
  field left out of \<^verbatim>\<open>data\<close>; the update is taken to write no column then.\<close>

definition set_title :: "env \<Rightarrow> db \<Rightarrow> string \<Rightarrow> string \<Rightarrow> db" where
  "set_title e d i t =
     d\<lparr>contracts :=
         map (\<lambda>r. if contract_id r = i
                  then r\<lparr>contract_title := t, contract_updatedAt := env_now e\<rparr>
                  else r) (contracts d)\<rparr>"

definition contract_update :: "env \<Rightarrow> db \<Rightarrow> string \<Rightarrow> field \<Rightarrow> prisma_error + db" where
  "contract_update e d i title =
     (case find_contract d i of
        None \<Rightarrow> Inl RecordNotFound
      | Some _ \<Rightarrow>
          (case title of
             Missing \<Rightarrow> Inr d
           | Other \<Rightarrow> Inl ValidationError
           | Text t \<Rightarrow> Inr (set_title e d i t)
           | SetText t \<Rightarrow> Inr (set_title e d i t)))"

text \<open>An element of the \<^verbatim>\<open>clauses\<close> array of \<^verbatim>\<open>POST /\<close>, read through
  \<^verbatim>\<open>clause.title\<close>, \<^verbatim>\<open>clause.content\<close> and \<^verbatim>\<open>clause.userId\<close>.\<close>

record clause_input =
  ci_title :: field
  ci_content :: field
  ci_userId :: field

text \<open>Creating the clauses of a list one after the other for the new contract
  \<open>cid\<close>; \<open>k\<close> counts the rows inserted so far.\<close>

fun create_clauses :: "env \<Rightarrow> db \<Rightarrow> string \<Rightarrow> nat \<Rightarrow> clause_input list \<Rightarrow> prisma_error + db" where
  "create_clauses e d cid k [] = Inr d"
| "create_clauses e d cid k (ci # cis) =
     (case clause_create e d (env_cuid e k) (ci_title ci) (ci_content ci) cid (ci_userId ci) of
        Inl err \<Rightarrow> Inl err
      | Inr (d', _) \<Rightarrow> create_clauses e d' cid (Suc k) cis)"

text \<open>\<^verbatim>\<open>prisma.contract.create\<close> with \<^verbatim>\<open>cohort: { connect: { id: cohortId } }\<close> and
  the nested \<^verbatim>\<open>clauses: { create: [...] }\<close>. The nested creates run from the last
  element of the array to the first, so the clauses are stored, and sent back, in
  reverse array order. The nested write is one transaction: an error leaves nothing
  behind, which the caller sees as the database it passed in.\<close>

definition contract_create ::
  "env \<Rightarrow> db \<Rightarrow> field \<Rightarrow> field \<Rightarrow> clause_input list \<Rightarrow> prisma_error + db \<times> contract" where
  "contract_create e d title cohortId cis =
     (case (title, cohortId) of
        (Text t, Text h) \<Rightarrow>
          (if h \<notin> set (column_values d Cohorts Id) then Inl RecordNotFound
           else
             (let r = \<lparr>contract_id = env_cuid e 0, contract_title = t, contract_cohortId = h,
                       contract_createdAt = env_now e, contract_updatedAt = env_now e\<rparr>
              in case insert_contract d r of
                   Inl err \<Rightarrow> Inl err
                 | Inr d1 \<Rightarrow>
                     (case create_clauses e d1 (contract_id r) 1 (rev cis) of
                        Inl err \<Rightarrow> Inl err
                      | Inr d2 \<Rightarrow> Inr (d2, r))))
      | _ \<Rightarrow> Inl ValidationError)"

section \<open>The router of \<^verbatim>\<open>apps/api/src/routes/contracts.ts\<close>\<close>

datatype body = NoBody | ErrorBody string | ContractsBody "contract_view list"
  | ContractBody contract_view | ClauseBody clause_view | AmendmentBody amendment_view

datatype response = Response (res_status: nat) (res_body: body)

text \<open>The \<^verbatim>\<open>clauses\<close> field of the body of \<^verbatim>\<open>POST /\<close>: missing or \<^verbatim>\<open>null\<close>, an array
  of objects, or a value of another type.\<close>

datatype clauses_field = NoClauses | NotAnArray | ClauseArray "clause_input list"

text \<open>\<^verbatim>\<open>clauses?.map(...) || []\<close>: the empty list for a missing field, the mapped array
  for an array, and a \<^verbatim>\<open>TypeError\<close> (\<open>None\<close>) for a value without \<^verbatim>\<open>map\<close>.\<close>

definition clauses_or_empty :: "clauses_field \<Rightarrow> clause_input list option" where
  "clauses_or_empty f =
     (case f of NoClauses \<Rightarrow> Some [] | NotAnArray \<Rightarrow> None | ClauseArray cis \<Rightarrow> Some cis)"

record contract_body =
  cb_title :: field
  cb_cohortId :: field
  cb_clauses :: clauses_field

record clause_body =
  lb_title :: field
  lb_content :: field
  lb_userId :: field

record amend_body =
  ab_clauseId :: field
  ab_content :: field
  ab_userId :: field

text \<open>\<^verbatim>\<open>GET /\<close>\<close>

definition get_contracts :: "db \<Rightarrow> db \<times> response" where
  "get_contracts d =
     (case those (map (load_contract d AmendmentRows False) (contracts d)) of
        None \<Rightarrow> (d, Response 500 (ErrorBody ''Failed to fetch contracts''))
      | Some vs \<Rightarrow> (d, Response 200 (ContractsBody vs)))"

text \<open>\<^verbatim>\<open>POST /\<close>\<close>

definition post_contracts :: "env \<Rightarrow> db \<Rightarrow> contract_body \<Rightarrow> db \<times> response" where
  "post_contracts e d b =
     (case clauses_or_empty (cb_clauses b) of
        None \<Rightarrow> (d, Response 500 (ErrorBody ''Failed to create contract''))
      | Some cis \<Rightarrow>
          (case contract_create e d (cb_title b) (cb_cohortId b) cis of
             Inl err \<Rightarrow> (d, Response 500 (ErrorBody ''Failed to create contract''))
           | Inr (d', r) \<Rightarrow>
               (case load_contract d' NoAmendments False r of
                  None \<Rightarrow> (d, Response 500 (ErrorBody ''Failed to create contract''))
                | Some v \<Rightarrow> (d', Response 201 (ContractBody v)))))"

text \<open>\<^verbatim>\<open>GET /:id\<close>\<close>

definition get_contract :: "db \<Rightarrow> string \<Rightarrow> db \<times> response" where
  "get_contract d i =
     (case find_contract d i of
        None \<Rightarrow> (d, Response 404 (ErrorBody ''Contract not found''))
      | Some c \<Rightarrow>
          (case load_contract d AmendmentsWithProposedBy True c of
             None \<Rightarrow> (d, Response 500 (ErrorBody ''Failed to fetch contract''))
           | Some v \<Rightarrow> (d, Response 200 (ContractBody v))))"

text \<open>\<^verbatim>\<open>PUT /:id\<close>\<close>

definition put_contract :: "env \<Rightarrow> db \<Rightarrow> string \<Rightarrow> field \<Rightarrow> db \<times> response" where
  "put_contract e d i title =
     (case contract_update e d i title of
        Inl err \<Rightarrow> (d, Response 500 (ErrorBody ''Failed to update contract''))
      | Inr d' \<Rightarrow>
          (case Option.bind (find_contract d' i) (load_contract d' NoAmendments False) of
             None \<Rightarrow> (d, Response 500 (ErrorBody ''Failed to update contract''))
           | Some v \<Rightarrow> (d', Response 200 (ContractBody v))))"

text \<open>\<^verbatim>\<open>DELETE /:id\<close>\<close>

definition delete_contract :: "db \<Rightarrow> string \<Rightarrow> db \<times> response" where
  "delete_contract d i =
     (case delete_row d Contracts i of
        Inl err \<Rightarrow> (d, Response 500 (ErrorBody ''Failed to delete contract''))
      | Inr d' \<Rightarrow> (d', Response 204 NoBody))"

text \<open>\<^verbatim>\<open>POST /:id/clauses\<close>\<close>

definition post_clause :: "env \<Rightarrow> db \<Rightarrow> string \<Rightarrow> clause_body \<Rightarrow> db \<times> response" where
  "post_clause e d i b =
     (case clause_create e d (env_cuid e 0) (lb_title b) (lb_content b) i (lb_userId b) of
        Inl err \<Rightarrow> (d, Response 500 (ErrorBody ''Failed to add clause''))
      | Inr (d', r) \<Rightarrow>
          (case load_clause d' NoAmendments r of
             None \<Rightarrow> (d, Response 500 (ErrorBody ''Failed to add clause''))
           | Some v \<Rightarrow> (d', Response 201 (ClauseBody v))))"

text \<open>\<^verbatim>\<open>POST /:id/amend\<close>. The handler reads \<^verbatim>\<open>clauseId\<close>, \<^verbatim>\<open>content\<close> and \<^verbatim>\<open>userId\<close>
  from the body; \<^verbatim>\<open>req.params.id\<close> (here \<open>i\<close>) occurs nowhere in it.\<close>

definition post_amend :: "env \<Rightarrow> db \<Rightarrow> string \<Rightarrow> amend_body \<Rightarrow> db \<times> response" where
  "post_amend e d i b =
     (case amendment_create e d (ab_content b) (ab_clauseId b) (ab_userId b) of
        Inl err \<Rightarrow> (d, Response 500 (ErrorBody ''Failed to propose amendment''))
      | Inr (d', a) \<Rightarrow>
          (case include_proposedBy d' a of
             None \<Rightarrow> (d, Response 500 (ErrorBody ''Failed to propose amendment''))
           | Some v \<Rightarrow> (d', Response 201 (AmendmentBody v))))"

text \<open>The requests the router has a route for, and its dispatch.\<close>

datatype request = GetContracts | PostContracts contract_body | GetContract string
  | PutContract string field | DeleteContract string | PostClause string clause_body
  | PostAmend string amend_body

fun handle :: "env \<Rightarrow> db \<Rightarrow> request \<Rightarrow> db \<times> response" where
  "handle e d GetContracts = get_contracts d"
| "handle e d (PostContracts b) = post_contracts e d b"
| "handle e d (GetContract i) = get_contract d i"
| "handle e d (PutContract i title) = put_contract e d i title"
| "handle e d (DeleteContract i) = delete_contract d i"
| "handle e d (PostClause i b) = post_clause e d i b"
| "handle e d (PostAmend i b) = post_amend e d i b"

section \<open>Notions used by the properties\<close>

text \<open>A body field resolves against the primary keys of a table when it is a string
  that is one of them.\<close>

definition resolves :: "string list \<Rightarrow> field \<Rightarrow> bool" where
  "resolves ids f = (case f of Text i \<Rightarrow> i \<in> set ids | _ \<Rightarrow> False)"

text \<open>Referential integrity: every value of a foreign key column is a primary key of
  the referenced table.\<close>

definition fk_integrity :: "db \<Rightarrow> bool" where
  "fk_integrity d \<longleftrightarrow>
     (\<forall>fk \<in> set foreign_keys.
        set (column_values d (fk_table fk) (fk_column fk))
          \<subseteq> set (column_values d (fk_references fk) Id))"

text \<open>The revision history of a clause as the router serves it: the \<^verbatim>\<open>amendments\<close>
  array of the clause inside the answer of \<^verbatim>\<open>GET /:id\<close> for its contract.\<close>

definition history :: "db \<Rightarrow> string \<Rightarrow> string \<Rightarrow> amendment list option" where
  "history d contractId clauseId =
     (case res_body (snd (get_contract d contractId)) of
        ContractBody v \<Rightarrow>
          (case find (\<lambda>cv. clause_id (cv_row cv) = clauseId) (kv_clauses v) of
             None \<Rightarrow> None
           | Some cv \<Rightarrow> map_option (map av_row) (cv_amendments cv))
      | _ \<Rightarrow> None)"

text \<open>The database \<open>d\<close> with the status of every stored amendment \<open>a\<close> replaced by
  \<open>f a\<close>, and nothing else changed.\<close>

definition with_status :: "(amendment \<Rightarrow> string) \<Rightarrow> db \<Rightarrow> db" where
  "with_status f d = d\<lparr>amendments := map (\<lambda>a. a\<lparr>amendment_status := f a\<rparr>) (amendments d)\<rparr>"

subsection \<open>Example data\<close>

definition ex_user :: user where
  "ex_user = \<lparr>user_id = ''u1'', user_email = ''ada@example.org'', user_name = Some ''Ada'',
     user_role = ''PARTICIPANT'', user_createdAt = 1, user_updatedAt = 1\<rparr>"

definition ex_cohort :: cohort where
  "ex_cohort = \<lparr>cohort_id = ''h1'', cohort_name = ''Spring'', cohort_description = None,
     cohort_createdAt = 1, cohort_updatedAt = 1\<rparr>"

definition ex_contract :: contract where
  "ex_contract = \<lparr>contract_id = ''k1'', contract_title = ''Charter'', contract_cohortId = ''h1'',
     contract_createdAt = 2, contract_updatedAt = 2\<rparr>"

definition ex_clause :: clause where
  "ex_clause = \<lparr>clause_id = ''c1'', clause_title = ''Pace'', clause_content = ''v1'',
     clause_contractId = ''k1'', clause_userId = ''u1'', clause_createdAt = 3,
     clause_updatedAt = 3\<rparr>"

definition ex_db :: db where
  "ex_db = empty_db\<lparr>users := [ex_user], cohorts := [ex_cohort], contracts := [ex_contract],
     clauses := [ex_clause]\<rparr>"

definition ex_env :: env where
  "ex_env = \<lparr>env_now = 7, env_cuid = (\<lambda>k. ''a1'')\<rparr>"

definition ex_env_at :: "datetime \<Rightarrow> string \<Rightarrow> env" where
  "ex_env_at t i = \<lparr>env_now = t, env_cuid = (\<lambda>k. i)\<rparr>"

definition ex_amend :: amend_body where
  "ex_amend = \<lparr>ab_clauseId = Text ''c1'', ab_content = Text ''v2'', ab_userId = Text ''u1''\<rparr>"

text \<open>The amendment that \<open>ex_amend\<close> creates in \<open>ex_db\<close> under \<open>ex_env\<close>.\<close>

definition ex_amendment :: amendment where
  "ex_amendment = \<lparr>amendment_id = ''a1'', amendment_content = ''v2'', amendment_userId = ''u1'',
     amendment_clauseId = ''c1'', amendment_status = ''PENDING'', amendment_createdAt = 7,
     amendment_updatedAt = 7\<rparr>"

definition ex_amendment_view :: amendment_view where
  "ex_amendment_view =
     \<lparr>av_row = ex_amendment,
      av_proposedBy = Some \<lparr>us_id = ''u1'', us_name = Some ''Ada'', us_email = ''ada@example.org''\<rparr>\<rparr>"

text \<open>\<open>ex_db\<close> with that amendment stored, pending and accepted.\<close>

definition ex_db_pending :: db where
  "ex_db_pending = ex_db\<lparr>amendments := [ex_amendment]\<rparr>"

definition ex_db_accepted :: db where
  "ex_db_accepted = ex_db\<lparr>amendments := [ex_amendment\<lparr>amendment_status := ''ACCEPTED''\<rparr>]\<rparr>"

text \<open>Two amendments of \<open>ex_clause\<close> whose storage order is not their creation order.\<close>

definition ex_late :: amendment where
  "ex_late = \<lparr>amendment_id = ''a1'', amendment_content = ''v2'', amendment_userId = ''u1'',
     amendment_clauseId = ''c1'', amendment_status = ''PENDING'', amendment_createdAt = 9,
     amendment_updatedAt = 9\<rparr>"

definition ex_early :: amendment where
  "ex_early = \<lparr>amendment_id = ''a2'', amendment_content = ''v3'', amendment_userId = ''u1'',
     amendment_clauseId = ''c1'', amendment_status = ''PENDING'', amendment_createdAt = 3,
     amendment_updatedAt = 3\<rparr>"

definition ex_db_unordered :: db where
  "ex_db_unordered = ex_db\<lparr>amendments := [ex_late, ex_early]\<rparr>"

text \<open>A contract without clauses that a tension measurement still references.\<close>

definition ex_db_tension :: db where
  "ex_db_tension =
     ex_db\<lparr>clauses := [],
           tension_measurements :=
             [\<lparr>tension_id = ''t1'', tension_value = 4, tension_context = None,
               tension_contractId = ''k1'', tension_userId = ''u1'', tension_createdAt = 5\<rparr>]\<rparr>"

text \<open>A contract that nothing references.\<close>

definition ex_db_bare :: db where
  "ex_db_bare = ex_db\<lparr>clauses := []\<rparr>"

text \<open>\<open>ex_db\<close> with a second user, two amendments of \<open>ex_clause\<close> and two members of
  \<open>ex_cohort\<close>, stored in descending order of user id; and what \<^verbatim>\<open>GET /:id\<close> sends back
  for its contract.\<close>

definition ex_user2 :: user where
  "ex_user2 = \<lparr>user_id = ''u2'', user_email = ''bea@example.org'', user_name = None,
     user_role = ''FACILITATOR'', user_createdAt = 1, user_updatedAt = 1\<rparr>"

definition ex_db_full :: db where
  "ex_db_full = ex_db\<lparr>users := [ex_user, ex_user2], amendments := [ex_late, ex_early],
     cohort_members := [(''h1'', ''u2''), (''h1'', ''u1'')]\<rparr>"

definition ex_summary :: user_summary where
  "ex_summary = \<lparr>us_id = ''u1'', us_name = Some ''Ada'', us_email = ''ada@example.org''\<rparr>"

definition ex_summary2 :: user_summary where
  "ex_summary2 = \<lparr>us_id = ''u2'', us_name = None, us_email = ''bea@example.org''\<rparr>"

definition ex_contract_view :: contract_view where
  "ex_contract_view =
     \<lparr>kv_row = ex_contract,
      kv_clauses =
        [\<lparr>cv_row = ex_clause,
          cv_amendments = Some [\<lparr>av_row = ex_late, av_proposedBy = Some ex_summary\<rparr>,
                                \<lparr>av_row = ex_early, av_proposedBy = Some ex_summary\<rparr>],
          cv_createdBy = ex_summary\<rparr>],
      kv_cohort = \<lparr>hv_row = ex_cohort, hv_members = Some [ex_summary, ex_summary2]\<rparr>\<rparr>"

text \<open>A cohort with one member and no contract.\<close>

definition ex_db_members :: db where
  "ex_db_members =
     empty_db\<lparr>users := [ex_user], cohorts := [ex_cohort], cohort_members := [(''h1'', ''u1'')]\<rparr>"

section \<open>Auxiliary facts\<close>

lemmas ex_defs = ex_user_def ex_cohort_def ex_contract_def ex_clause_def ex_db_def ex_env_def
  ex_amend_def ex_amendment_def ex_amendment_view_def ex_late_def ex_early_def ex_db_unordered_def
  ex_db_tension_def ex_db_bare_def ex_db_members_def ex_db_pending_def ex_db_accepted_def
  ex_env_at_def ex_user2_def ex_db_full_def ex_summary_def ex_summary2_def ex_contract_view_def
  empty_db_def

lemmas schema_defs = foreign_keys_def mk_fk_def referencing_def cascade_delete_def
  column_values_def delete_where_def

lemma column_values_simps:
  "column_values d Users Id = map user_id (users d)"
  "column_values d Cohorts Id = map cohort_id (cohorts d)"
  "column_values d Contracts Id = map contract_id (contracts d)"
  "column_values d Clauses Id = map clause_id (clauses d)"
  "column_values d Amendments Id = map amendment_id (amendments d)"
  by (simp_all add: column_values_def)

lemma those_map_Some:
  "(\<And>x. x \<in> set xs \<Longrightarrow> f x = Some (g x)) \<Longrightarrow> those (map f xs) = Some (map g xs)"
  by (induction xs) simp_all

lemma those_map_all2:
  "those (map f xs) = Some ys \<Longrightarrow> list_all2 (\<lambda>x y. f x = Some y) xs ys"
  by (induction xs arbitrary: ys) (auto split: option.splits)

lemma those_map_total:
  assumes "\<And>x. x \<in> set xs \<Longrightarrow> \<exists>y. f x = Some y"
  shows "\<exists>ys. those (map f xs) = Some ys"
proof -
  have "those (map f xs) = Some (map (\<lambda>x. the (f x)) xs)"
    by (rule those_map_Some) (use assms in force)
  then show ?thesis ..
qed

lemma find_Some_key:
  "i \<in> set (map k xs) \<Longrightarrow> \<exists>x. find (\<lambda>x. k x = i) xs = Some x \<and> x \<in> set xs \<and> k x = i"
  by (induction xs) auto

lemma find_SomeD: "find P xs = Some x \<Longrightarrow> x \<in> set xs \<and> P x"
  by (induction xs) (auto split: if_splits)

lemma subset_filter_ids:
  "S \<subseteq> set (map k xs) \<Longrightarrow> i \<notin> S \<Longrightarrow> S \<subseteq> set (map k (filter (\<lambda>r. k r \<noteq> i) xs))"
  by (induction xs) auto

lemma subset_filter_other:
  "set (map f xs) \<subseteq> T \<Longrightarrow> set (map f (filter P xs)) \<subseteq> T"
  by (induction xs) auto

subsection \<open>Referential integrity, spelled out\<close>

lemma fk_integrity_iff:
  "fk_integrity d \<longleftrightarrow>
     set (map contract_cohortId (contracts d)) \<subseteq> set (map cohort_id (cohorts d)) \<and>
     set (map clause_contractId (clauses d)) \<subseteq> set (map contract_id (contracts d)) \<and>
     set (map clause_userId (clauses d)) \<subseteq> set (map user_id (users d)) \<and>
     set (map amendment_userId (amendments d)) \<subseteq> set (map user_id (users d)) \<and>
     set (map amendment_clauseId (amendments d)) \<subseteq> set (map clause_id (clauses d)) \<and>
     set (map tension_contractId (tension_measurements d)) \<subseteq> set (map contract_id (contracts d)) \<and>
     set (map tension_userId (tension_measurements d)) \<subseteq> set (map user_id (users d)) \<and>
     set (map journal_contractId (journal_entries d)) \<subseteq> set (map contract_id (contracts d)) \<and>
     set (map journal_userId (journal_entries d)) \<subseteq> set (map user_id (users d)) \<and>
     set (map failure_contractId (failure_entries d)) \<subseteq> set (map contract_id (contracts d)) \<and>
     set (map failure_userId (failure_entries d)) \<subseteq> set (map user_id (users d)) \<and>
     set (map iteration_failureEntryId (iterations d)) \<subseteq> set (map failure_id (failure_entries d)) \<and>
     set (map fst (cohort_members d)) \<subseteq> set (map cohort_id (cohorts d)) \<and>
     set (map snd (cohort_members d)) \<subseteq> set (map user_id (users d))"
  unfolding fk_integrity_def foreign_keys_def mk_fk_def
  by (simp add: column_values_def)

lemma fk_integrity_empty: "fk_integrity empty_db"
  by (simp add: fk_integrity_iff empty_db_def)

lemma fk_integrity_ex_db: "fk_integrity ex_db"
  by (simp add: fk_integrity_iff ex_defs)

lemma find_contract_None_iff:
  "find_contract d i = None \<longleftrightarrow> i \<notin> set (map contract_id (contracts d))"
  by (auto simp: find_contract_def find_None_iff)

lemma find_user_total: "i \<in> set (map user_id (users d)) \<Longrightarrow> \<exists>u. find_user d i = Some u"
  unfolding find_user_def using find_Some_key [of i user_id "users d"] by blast

lemma find_cohort_total: "i \<in> set (map cohort_id (cohorts d)) \<Longrightarrow> \<exists>h. find_cohort d i = Some h"
  unfolding find_cohort_def using find_Some_key [of i cohort_id "cohorts d"] by blast

subsection \<open>Reads\<close>

lemma include_proposedBy_total:
  assumes "fk_integrity d" "a \<in> set (amendments d)"
  shows "\<exists>v. include_proposedBy d a = Some v"
proof -
  from assms have "amendment_userId a \<in> set (map user_id (users d))"
    by (auto simp: fk_integrity_iff)
  then obtain u where "find_user d (amendment_userId a) = Some u"
    using find_user_total by blast
  then show ?thesis by (simp add: include_proposedBy_def)
qed

lemma include_proposedBy_row: "include_proposedBy d a = Some v \<Longrightarrow> av_row v = a"
  by (auto simp: include_proposedBy_def)

lemma load_clause_total:
  assumes "fk_integrity d" "l \<in> set (clauses d)"
  shows "\<exists>cv. load_clause d inc l = Some cv"
proof -
  from assms have "clause_userId l \<in> set (map user_id (users d))"
    by (auto simp: fk_integrity_iff)
  then obtain u where u: "find_user d (clause_userId l) = Some u"
    using find_user_total by blast
  have "\<exists>avs. those (map (include_proposedBy d) (amendments_of d l)) = Some avs"
    by (rule those_map_total) (simp add: amendments_of_def include_proposedBy_total [OF assms(1)])
  with u show ?thesis
    by (cases inc) (auto simp: load_clause_def)
qed

lemma load_clause_row: "load_clause d inc l = Some cv \<Longrightarrow> cv_row cv = l"
  by (auto simp: load_clause_def split: option.splits amendments_include.splits)

lemma load_clause_amendments:
  assumes "load_clause d AmendmentsWithProposedBy l = Some cv"
  shows "map_option (map av_row) (cv_amendments cv) = Some (amendments_of d l)"
proof -
  from assms obtain avs where avs: "those (map (include_proposedBy d) (amendments_of d l)) = Some avs"
    and cv: "cv_amendments cv = Some avs"
    by (auto simp: load_clause_def split: option.splits)
  have "list_all2 (\<lambda>a v. include_proposedBy d a = Some v) (amendments_of d l) avs"
    using avs by (rule those_map_all2)
  then have "list_all2 (\<lambda>a v. av_row v = a) (amendments_of d l) avs"
    by (rule list_all2_mono) (simp add: include_proposedBy_row)
  then have "map av_row avs = amendments_of d l"
    by (induction rule: list_all2_induct) simp_all
  with cv show ?thesis by simp
qed

lemma load_contract_total:
  assumes "fk_integrity d" "c \<in> set (contracts d)"
  shows "\<exists>v. load_contract d inc m c = Some v"
proof -
  from assms have "contract_cohortId c \<in> set (map cohort_id (cohorts d))"
    by (auto simp: fk_integrity_iff)
  then obtain h where h: "find_cohort d (contract_cohortId c) = Some h"
    using find_cohort_total by blast
  have "\<exists>cvs. those (map (load_clause d inc) (clauses_of d c)) = Some cvs"
    by (rule those_map_total) (simp add: clauses_of_def load_clause_total [OF assms(1)])
  with h show ?thesis by (auto simp: load_contract_def)
qed

lemma load_contract_shape:
  assumes "load_contract d inc m c = Some v"
  shows "kv_row v = c \<and> map cv_row (kv_clauses v) = clauses_of d c
       \<and> list_all2 (\<lambda>l cv. load_clause d inc l = Some cv) (clauses_of d c) (kv_clauses v)
       \<and> find_cohort d (contract_cohortId c) = Some (hv_row (kv_cohort v))
       \<and> hv_members (kv_cohort v) = (if m then Some (members_of d (hv_row (kv_cohort v))) else None)"
proof -
  from assms obtain h cvs where h: "find_cohort d (contract_cohortId c) = Some h"
    and cvs: "those (map (load_clause d inc) (clauses_of d c)) = Some cvs"
    and v: "v = \<lparr>kv_row = c, kv_clauses = cvs, kv_cohort = load_cohort d m h\<rparr>"
    by (auto simp: load_contract_def split: option.splits)
  have all2: "list_all2 (\<lambda>l cv. load_clause d inc l = Some cv) (clauses_of d c) cvs"
    using cvs by (rule those_map_all2)
  then have "list_all2 (\<lambda>l cv. cv_row cv = l) (clauses_of d c) cvs"
    by (rule list_all2_mono) (simp add: load_clause_row)
  then have "map cv_row cvs = clauses_of d c"
    by (induction rule: list_all2_induct) simp_all
  with h all2 v show ?thesis by (simp add: load_cohort_def)
qed

lemma get_contracts_db: "fst (get_contracts d) = d"
  by (simp add: get_contracts_def split: option.splits)

lemma get_contract_db: "fst (get_contract d i) = d"
  by (auto simp: get_contract_def split: option.splits)

lemma get_contract_404:
  "res_status (snd (get_contract d i)) = 404 \<longleftrightarrow> i \<notin> set (map contract_id (contracts d))"
  unfolding find_contract_None_iff [symmetric]
  by (auto simp: get_contract_def split: option.splits)

lemma get_contract_200:
  assumes "fk_integrity d" "find_contract d i = Some c"
  shows "\<exists>v. get_contract d i = (d, Response 200 (ContractBody v)) \<and> kv_row v = c \<and>
           map cv_row (kv_clauses v) = clauses_of d c \<and>
           (\<forall>cv \<in> set (kv_clauses v).
              map_option (map av_row) (cv_amendments cv) = Some (amendments_of d (cv_row cv))) \<and>
           find_cohort d (contract_cohortId c) = Some (hv_row (kv_cohort v)) \<and>
           hv_members (kv_cohort v) = Some (members_of d (hv_row (kv_cohort v)))"
proof -
  from assms(2) have "c \<in> set (contracts d)"
    unfolding find_contract_def by (auto dest: find_SomeD)
  then obtain v where v: "load_contract d AmendmentsWithProposedBy True c = Some v"
    using load_contract_total [OF assms(1)] by blast
  note shape = load_contract_shape [OF v]
  have "map_option (map av_row) (cv_amendments cv) = Some (amendments_of d (cv_row cv))"
    if "cv \<in> set (kv_clauses v)" for cv
  proof -
    from shape that obtain l where "load_clause d AmendmentsWithProposedBy l = Some cv"
      by (auto simp: in_set_conv_nth list_all2_conv_all_nth)
    then show ?thesis
      using load_clause_amendments load_clause_row by blast
  qed
  with v shape assms(2) show ?thesis
    by (auto simp: get_contract_def)
qed

lemma map_insort_key: "map f (insort_key f x xs) = insort (f x) (map f xs)"
  by (induction xs) simp_all

lemma map_sort_key: "map f (sort_key f xs) = sort (map f xs)"
  by (induction xs) (simp_all add: map_insort_key)

lemma map_filter_all_Some:
  "(\<And>x. x \<in> set xs \<Longrightarrow> f x = Some (g x)) \<Longrightarrow> List.map_filter f xs = map g xs"
  by (induction xs) (simp_all add: map_filter_simps)

lemma find_user_id: "find_user d i = Some u \<Longrightarrow> u \<in> set (users d) \<and> user_id u = i"
  unfolding find_user_def by (auto dest: find_SomeD)

lemma members_of_integrity:
  assumes "fk_integrity d"
  shows "map us_id (members_of d h)
           = sort (map snd (filter (\<lambda>m. fst m = cohort_id h) (cohort_members d)))
       \<and> (\<forall>s \<in> set (members_of d h). \<exists>u \<in> set (users d). s = select_user u)"
proof -
  define rows where "rows = sort_key snd (filter (\<lambda>m. fst m = cohort_id h) (cohort_members d))"
  have found: "\<exists>u. find_user d (snd m) = Some u" if "m \<in> set rows" for m
  proof -
    from that have "snd m \<in> set (map snd (cohort_members d))"
      by (auto simp: rows_def)
    with assms have "snd m \<in> set (map user_id (users d))"
      by (auto simp: fk_integrity_iff)
    then show ?thesis by (rule find_user_total)
  qed
  have eq: "members_of d h = map (\<lambda>m. select_user (the (find_user d (snd m)))) rows"
    unfolding members_of_def rows_def [symmetric]
    by (rule map_filter_all_Some) (use found in force)
  have ids: "us_id (select_user (the (find_user d (snd m)))) = snd m" if "m \<in> set rows" for m
    using found [OF that] by (auto simp: select_user_def dest: find_user_id)
  have "map us_id (members_of d h) = map snd rows"
    unfolding eq by (simp add: ids comp_def)
  also have "\<dots> = sort (map snd (filter (\<lambda>m. fst m = cohort_id h) (cohort_members d)))"
    by (simp add: rows_def map_sort_key)
  finally have first: "map us_id (members_of d h)
      = sort (map snd (filter (\<lambda>m. fst m = cohort_id h) (cohort_members d)))" .
  have "\<exists>u \<in> set (users d). s = select_user u" if "s \<in> set (members_of d h)" for s
  proof -
    from that obtain m where m: "m \<in> set rows" "s = select_user (the (find_user d (snd m)))"
      by (auto simp: eq)
    from found [OF m(1)] obtain u where "find_user d (snd m) = Some u" ..
    with m(2) show ?thesis by (auto dest: find_user_id)
  qed
  with first show ?thesis by blast
qed

lemma load_clause_createdBy:
  assumes "load_clause d inc l = Some cv"
  shows "\<exists>u. find_user d (clause_userId l) = Some u \<and> cv_createdBy cv = select_user u"
  using assms
  by (auto simp: load_clause_def split: option.splits amendments_include.splits)

lemma load_clause_proposedBy:
  assumes "load_clause d AmendmentsWithProposedBy l = Some cv"
  shows "\<exists>avs. cv_amendments cv = Some avs \<and> map av_row avs = amendments_of d l
           \<and> (\<forall>av \<in> set avs. \<exists>u. find_user d (amendment_userId (av_row av)) = Some u
                  \<and> av_proposedBy av = Some (select_user u))"
proof -
  from assms obtain avs where avs: "those (map (include_proposedBy d) (amendments_of d l)) = Some avs"
    and cv: "cv_amendments cv = Some avs"
    by (auto simp: load_clause_def split: option.splits)
  have all2: "list_all2 (\<lambda>a v. include_proposedBy d a = Some v) (amendments_of d l) avs"
    using avs by (rule those_map_all2)
  have rows: "map av_row avs = amendments_of d l"
    using load_clause_amendments [OF assms] cv by simp
  have "\<exists>u. find_user d (amendment_userId (av_row av)) = Some u
          \<and> av_proposedBy av = Some (select_user u)" if "av \<in> set avs" for av
  proof -
    from all2 that obtain a where "include_proposedBy d a = Some av"
      by (auto simp: in_set_conv_nth list_all2_conv_all_nth)
    then show ?thesis
      by (auto simp: include_proposedBy_def)
  qed
  with cv rows show ?thesis by blast
qed

lemma get_contract_load:
  assumes "fk_integrity d" "find_contract d i = Some c"
  shows "\<exists>v. load_contract d AmendmentsWithProposedBy True c = Some v
           \<and> get_contract d i = (d, Response 200 (ContractBody v))"
proof -
  from assms(2) have "c \<in> set (contracts d)"
    unfolding find_contract_def by (auto dest: find_SomeD)
  then obtain v where "load_contract d AmendmentsWithProposedBy True c = Some v"
    using load_contract_total [OF assms(1)] by blast
  with assms(2) show ?thesis by (simp add: get_contract_def)
qed

lemma ex_get_full:
  "get_contract ex_db_full ''k1'' = (ex_db_full, Response 200 (ContractBody ex_contract_view))"
  by (simp add: get_contract_def find_contract_def load_contract_def find_cohort_def
      clauses_of_def load_clause_def find_user_def amendments_of_def include_proposedBy_def
      select_user_def load_cohort_def members_of_def map_filter_simps ex_defs)

lemma ex_int_full: "fk_integrity ex_db_full"
  by (simp add: fk_integrity_iff ex_defs)

subsection \<open>Deletes\<close>

lemma delete_contract_char:
  "delete_contract d i =
     (if i \<in> set (map contract_id (contracts d))
         \<and> i \<notin> set (map clause_contractId (clauses d))
         \<and> i \<notin> set (map tension_contractId (tension_measurements d))
         \<and> i \<notin> set (map journal_contractId (journal_entries d))
         \<and> i \<notin> set (map failure_contractId (failure_entries d))
      then (d\<lparr>contracts := filter (\<lambda>r. contract_id r \<noteq> i) (contracts d)\<rparr>, Response 204 NoBody)
      else (d, Response 500 (ErrorBody ''Failed to delete contract'')))"
  by (simp add: delete_contract_def delete_row_def schema_defs)



lemma cascade_fold:
  "fold (cascade_delete t i) foreign_keys d =
     d\<lparr>cohort_members :=
         (case t of Cohorts \<Rightarrow> filter (\<lambda>m. fst m \<noteq> i) (cohort_members d)
          | Users \<Rightarrow> filter (\<lambda>m. snd m \<noteq> i) (cohort_members d)
          | _ \<Rightarrow> cohort_members d)\<rparr>"
  by (cases t) (simp_all add: foreign_keys_def mk_fk_def cascade_delete_def delete_where_def)


subsection \<open>Writes\<close>

lemma post_amend_cases:
  "post_amend e d i b = (d, Response 500 (ErrorBody ''Failed to propose amendment''))
   \<or> (\<exists>c l u usr. ab_content b = Text c \<and> ab_clauseId b = Text l \<and> ab_userId b = Text u
        \<and> l \<in> set (map clause_id (clauses d)) \<and> find_user d u = Some usr
        \<and> env_cuid e 0 \<notin> set (map amendment_id (amendments d))
        \<and> post_amend e d i b =
            (d\<lparr>amendments := amendments d @
                 [\<lparr>amendment_id = env_cuid e 0, amendment_content = c, amendment_userId = u,
                   amendment_clauseId = l, amendment_status = ''PENDING'',
                   amendment_createdAt = env_now e, amendment_updatedAt = env_now e\<rparr>]\<rparr>,
             Response 201 (AmendmentBody
               \<lparr>av_row = \<lparr>amendment_id = env_cuid e 0, amendment_content = c, amendment_userId = u,
                   amendment_clauseId = l, amendment_status = ''PENDING'',
                   amendment_createdAt = env_now e, amendment_updatedAt = env_now e\<rparr>,
                av_proposedBy = Some (select_user usr)\<rparr>)))"
  apply (cases "ab_content b"; cases "ab_clauseId b"; cases "ab_userId b")
  apply (simp_all add: post_amend_def amendment_create_def)
  apply (auto simp: column_values_simps insert_amendment_def include_proposedBy_def Let_def
       amendment_row_def amendment_status_default_def find_user_def
       split: option.splits dest!: find_user_total)
  done

lemma post_amend_example:
  "post_amend ex_env ex_db i ex_amend =
     (ex_db\<lparr>amendments := [ex_amendment]\<rparr>, Response 201 (AmendmentBody ex_amendment_view))"
  by (simp add: post_amend_def amendment_create_def insert_amendment_def amendment_row_def
      amendment_status_default_def include_proposedBy_def find_user_def select_user_def
      column_values_def ex_defs)

lemma clause_create_Inr:
  assumes "clause_create e d i title content k userId = Inr (d', r)"
  shows "d' = d\<lparr>clauses := clauses d @ [r]\<rparr> \<and> clause_id r = i \<and> clause_contractId r = k
       \<and> k \<in> set (map contract_id (contracts d))
       \<and> clause_userId r \<in> set (map user_id (users d))
       \<and> i \<notin> set (map clause_id (clauses d))"
  using assms
  by (auto simp: clause_create_def insert_clause_def column_values_def Let_def
      split: field.splits if_splits)

lemma create_clauses_Inr:
  assumes "create_clauses e d cid k cis = Inr d'"
  shows "\<exists>ls. d' = d\<lparr>clauses := clauses d @ ls\<rparr>
            \<and> set (map clause_contractId ls) \<subseteq> {cid}
            \<and> set (map clause_userId ls) \<subseteq> set (map user_id (users d))"
  using assms
proof (induction cis arbitrary: d k)
  case Nil
  then have "d' = d\<lparr>clauses := clauses d @ []\<rparr>" by simp
  then show ?case by (intro exI [of _ "[]"]) simp
next
  case (Cons ci cis)
  from Cons.prems obtain d1 r where
    step: "clause_create e d (env_cuid e k) (ci_title ci) (ci_content ci) cid (ci_userId ci) = Inr (d1, r)"
    and rest: "create_clauses e d1 cid (Suc k) cis = Inr d'"
    by (auto split: sum.splits)
  note one = clause_create_Inr [OF step]
  from Cons.IH [OF rest] obtain ls where ls: "d' = d1\<lparr>clauses := clauses d1 @ ls\<rparr>"
    "set (map clause_contractId ls) \<subseteq> {cid}"
    "set (map clause_userId ls) \<subseteq> set (map user_id (users d1))"
    by blast
  have "d' = d\<lparr>clauses := clauses d @ (r # ls)\<rparr>"
    using one ls(1) by simp
  moreover have "set (map clause_contractId (r # ls)) \<subseteq> {cid}"
    using one ls(2) by simp
  moreover have "set (map clause_userId (r # ls)) \<subseteq> set (map user_id (users d))"
    using one ls(3) by simp
  ultimately show ?case by blast
qed

lemma contract_create_Inr:
  assumes "contract_create e d title cohortId cis = Inr (d', r)"
  shows "\<exists>ls. d' = d\<lparr>contracts := contracts d @ [r], clauses := clauses d @ ls\<rparr>
            \<and> contract_cohortId r \<in> set (map cohort_id (cohorts d))
            \<and> set (map clause_contractId ls) \<subseteq> {contract_id r}
            \<and> set (map clause_userId ls) \<subseteq> set (map user_id (users d))"
proof -
  from assms obtain t h where th: "title = Text t" "cohortId = Text h"
    by (auto simp: contract_create_def split: field.splits)
  define r0 where "r0 = \<lparr>contract_id = env_cuid e 0, contract_title = t, contract_cohortId = h,
     contract_createdAt = env_now e, contract_updatedAt = env_now e\<rparr>"
  from assms th have h: "h \<in> set (map cohort_id (cohorts d))"
    by (auto simp: contract_create_def column_values_def split: if_splits)
  with assms th obtain d1 where d1: "insert_contract d r0 = Inr d1"
    and rest: "create_clauses e d1 (contract_id r0) 1 (rev cis) = Inr d'" and r: "r = r0"
    by (auto simp: contract_create_def column_values_def Let_def r0_def split: sum.splits)
  from d1 have d1': "d1 = d\<lparr>contracts := contracts d @ [r0]\<rparr>"
    by (auto simp: insert_contract_def split: if_splits)
  from create_clauses_Inr [OF rest] obtain ls where "d' = d1\<lparr>clauses := clauses d1 @ ls\<rparr>"
    "set (map clause_contractId ls) \<subseteq> {contract_id r0}"
    "set (map clause_userId ls) \<subseteq> set (map user_id (users d1))"
    by blast
  with d1' r h show ?thesis by (auto simp: r0_def)
qed

lemma post_contracts_db:
  "fst (post_contracts e d b) = d
   \<or> (\<exists>r ls. fst (post_contracts e d b) = d\<lparr>contracts := contracts d @ [r], clauses := clauses d @ ls\<rparr>
        \<and> contract_cohortId r \<in> set (map cohort_id (cohorts d))
        \<and> set (map clause_contractId ls) \<subseteq> {contract_id r}
        \<and> set (map clause_userId ls) \<subseteq> set (map user_id (users d)))"
proof (cases "clauses_or_empty (cb_clauses b)")
  case None
  then show ?thesis by (simp add: post_contracts_def)
next
  case (Some cis)
  then show ?thesis
    using contract_create_Inr [of e d "cb_title b" "cb_cohortId b" cis]
    by (auto simp: post_contracts_def split: sum.splits option.splits)
qed

lemma put_contract_db:
  "fst (put_contract e d i title) = d
   \<or> (\<exists>t. fst (put_contract e d i title) =
         d\<lparr>contracts := map (\<lambda>r. if contract_id r = i
                                  then r\<lparr>contract_title := t, contract_updatedAt := env_now e\<rparr>
                                  else r) (contracts d)\<rparr>)"
  by (auto simp: put_contract_def contract_update_def set_title_def
      split: sum.splits option.splits field.splits)

lemma post_clause_db:
  "fst (post_clause e d i b) = d
   \<or> (\<exists>r. fst (post_clause e d i b) = d\<lparr>clauses := clauses d @ [r]\<rparr>
        \<and> clause_contractId r \<in> set (map contract_id (contracts d))
        \<and> clause_userId r \<in> set (map user_id (users d)))"
  using clause_create_Inr [of e d "env_cuid e 0" "lb_title b" "lb_content b" i "lb_userId b"]
  by (auto simp: post_clause_def split: sum.splits option.splits)

subsection \<open>What no request does\<close>

text \<open>
  Whatever the request, every stored clause and every stored amendment is still there
  afterwards, unchanged and at its place: the router only ever appends to these two
  tables. In particular no route writes \<^verbatim>\<open>clauses.content\<close>, \<^verbatim>\<open>clauses.updatedAt\<close> or
  \<^verbatim>\<open>amendments.status\<close> of an existing row.
\<close>

lemma handle_keeps_rows:
  "handle e d r = (d', res) \<Longrightarrow>
     users d' = users d \<and> cohorts d' = cohorts d
     \<and> (\<exists>ls. clauses d' = clauses d @ ls) \<and> (\<exists>as. amendments d' = amendments d @ as)
     \<and> tension_measurements d' = tension_measurements d
     \<and> journal_entries d' = journal_entries d \<and> failure_entries d' = failure_entries d
     \<and> iterations d' = iterations d \<and> cohort_members d' = cohort_members d"
proof (cases r)
  case GetContracts
  assume "handle e d r = (d', res)"
  with GetContracts show ?thesis using get_contracts_db [of d] by auto
next
  case (PostContracts b)
  assume "handle e d r = (d', res)"
  with PostContracts show ?thesis using post_contracts_db [of e d b] by auto
next
  case (GetContract i)
  assume "handle e d r = (d', res)"
  with GetContract show ?thesis using get_contract_db [of d i] by auto
next
  case (PutContract i t)
  assume "handle e d r = (d', res)"
  with PutContract show ?thesis using put_contract_db [of e d i t] by auto
next
  case (DeleteContract i)
  assume "handle e d r = (d', res)"
  with DeleteContract show ?thesis by (auto simp: delete_contract_char split: if_splits)
next
  case (PostClause i b)
  assume "handle e d r = (d', res)"
  with PostClause show ?thesis using post_clause_db [of e d i b] by auto
next
  case (PostAmend i b)
  assume "handle e d r = (d', res)"
  with PostAmend show ?thesis using post_amend_cases [of e d i b] by auto
qed

text \<open>The status codes the router answers with.\<close>

lemma handle_res_status: "res_status (snd (handle e d r)) \<in> {200, 201, 204, 404, 500}"
proof (cases r)
  case (PostAmend i b)
  then show ?thesis using post_amend_cases [of e d i b] by auto
qed (auto simp: get_contracts_def post_contracts_def get_contract_def put_contract_def
      delete_contract_def post_clause_def split: option.splits sum.splits prod.splits)

subsection \<open>Every request preserves referential integrity\<close>

lemma post_contracts_integrity:
  assumes "fk_integrity d" shows "fk_integrity (fst (post_contracts e d b))"
  using post_contracts_db [of e d b] assms
  by (elim disjE exE conjE) (simp, auto simp: fk_integrity_iff)

lemma put_contract_integrity:
  assumes "fk_integrity d" shows "fk_integrity (fst (put_contract e d i t))"
proof -
  have ids: "map contract_id (map (\<lambda>r. if contract_id r = i
      then r\<lparr>contract_title := x, contract_updatedAt := env_now e\<rparr> else r) cs) = map contract_id cs"
    and hs: "map contract_cohortId (map (\<lambda>r. if contract_id r = i
      then r\<lparr>contract_title := x, contract_updatedAt := env_now e\<rparr> else r) cs)
      = map contract_cohortId cs" for x cs
    by (induction cs) simp_all
  from put_contract_db [of e d i t] assms show ?thesis
    by (elim disjE exE) (simp, simp add: fk_integrity_iff ids hs del: map_map)
qed

lemma delete_contract_integrity:
  assumes "fk_integrity d" shows "fk_integrity (fst (delete_contract d i))"
proof (cases "fst (delete_contract d i) = d")
  case True
  with assms show ?thesis by simp
next
  case False
  then have ok: "i \<notin> set (map clause_contractId (clauses d))"
    "i \<notin> set (map tension_contractId (tension_measurements d))"
    "i \<notin> set (map journal_contractId (journal_entries d))"
    "i \<notin> set (map failure_contractId (failure_entries d))"
    and d': "fst (delete_contract d i) = d\<lparr>contracts := filter (\<lambda>r. contract_id r \<noteq> i) (contracts d)\<rparr>"
    by (auto simp: delete_contract_char split: if_splits)
  from assms ok show ?thesis
    unfolding d' fk_integrity_iff
    by (simp add: subset_filter_ids subset_filter_other del: set_map set_filter)
qed

lemma post_clause_integrity:
  assumes "fk_integrity d" shows "fk_integrity (fst (post_clause e d i b))"
  using post_clause_db [of e d i b] assms
  by (elim disjE exE conjE) (simp, auto simp: fk_integrity_iff)

lemma post_amend_integrity:
  assumes "fk_integrity d" shows "fk_integrity (fst (post_amend e d i b))"
  using post_amend_cases [of e d i b] assms
  by (elim disjE exE conjE) (simp, auto simp: fk_integrity_iff find_user_def dest!: find_SomeD)

lemma handle_integrity: "fk_integrity d \<Longrightarrow> fk_integrity (fst (handle e d r))"
  by (cases r)
    (simp_all add: get_contracts_db get_contract_db post_contracts_integrity put_contract_integrity
      delete_contract_integrity post_clause_integrity post_amend_integrity)

subsection \<open>The router does not read the status of an amendment\<close>

text \<open>
  The status code of the answer to a request is the same whatever the statuses of the
  stored amendments are: no route tests \<^verbatim>\<open>amendments.status\<close>.
\<close>

lemma with_status_tables:
  "users (with_status f d) = users d" "cohorts (with_status f d) = cohorts d"
  "contracts (with_status f d) = contracts d" "clauses (with_status f d) = clauses d"
  "cohort_members (with_status f d) = cohort_members d"
  "amendments (with_status f d) = map (\<lambda>a. a\<lparr>amendment_status := f a\<rparr>) (amendments d)"
  by (simp_all add: with_status_def)

lemma with_status_column_values: "column_values (with_status f d) t c = column_values d t c"
  by (simp add: column_values_def with_status_def comp_def split: table.splits column.splits)

lemma with_status_finds:
  "find_user (with_status f d) = find_user d"
  "find_cohort (with_status f d) = find_cohort d"
  "find_contract (with_status f d) = find_contract d"
  by (simp_all add: fun_eq_iff find_user_def find_cohort_def find_contract_def with_status_tables)

lemma with_status_clauses_of: "clauses_of (with_status f d) c = clauses_of d c"
  by (simp add: clauses_of_def with_status_tables)

lemma with_status_amendments_of:
  "amendments_of (with_status f d) c = map (\<lambda>a. a\<lparr>amendment_status := f a\<rparr>) (amendments_of d c)"
  by (simp add: amendments_of_def with_status_tables filter_map comp_def)

lemma with_status_members_of: "members_of (with_status f d) h = members_of d h"
  by (simp add: members_of_def with_status_finds with_status_tables)

lemma those_map_map_option:
  "those (map (\<lambda>x. map_option g (h x)) xs) = map_option (map g) (those (map h xs))"
  by (induction xs) (simp_all add: option.map_comp comp_def split: option.splits)

lemma with_status_include_proposedBy:
  "include_proposedBy (with_status f d) (a\<lparr>amendment_status := f a\<rparr>) =
     map_option (\<lambda>v. v\<lparr>av_row := (av_row v)\<lparr>amendment_status := f (av_row v)\<rparr>\<rparr>)
       (include_proposedBy d a)"
  by (cases "find_user d (amendment_userId a)")
    (simp_all add: include_proposedBy_def with_status_finds)

lemma with_status_load_clause:
  "load_clause (with_status f d) inc c =
     map_option
       (\<lambda>cv. cv\<lparr>cv_amendments :=
           map_option (map (\<lambda>v. v\<lparr>av_row := (av_row v)\<lparr>amendment_status := f (av_row v)\<rparr>\<rparr>))
             (cv_amendments cv)\<rparr>)
       (load_clause d inc c)"
proof (cases "find_user d (clause_userId c)")
  case None
  then show ?thesis by (simp add: load_clause_def with_status_finds)
next
  case (Some u)
  have "those (map (include_proposedBy (with_status f d))
            (map (\<lambda>a. a\<lparr>amendment_status := f a\<rparr>) (amendments_of d c)))
      = map_option (map (\<lambda>v. v\<lparr>av_row := (av_row v)\<lparr>amendment_status := f (av_row v)\<rparr>\<rparr>))
          (those (map (include_proposedBy d) (amendments_of d c)))"
    by (simp add: comp_def with_status_include_proposedBy those_map_map_option)
  with Some show ?thesis
    by (cases inc; cases "those (map (include_proposedBy d) (amendments_of d c))")
      (simp_all add: load_clause_def with_status_finds with_status_amendments_of comp_def)
qed

lemma with_status_load_contract:
  "\<exists>g. \<forall>c. load_contract (with_status f d) inc m c = map_option g (load_contract d inc m c)"
proof -
  define gc :: "clause_view \<Rightarrow> clause_view" where "gc = (\<lambda>cv. cv\<lparr>cv_amendments :=
           map_option (map (\<lambda>v. v\<lparr>av_row := (av_row v)\<lparr>amendment_status := f (av_row v)\<rparr>\<rparr>))
             (cv_amendments cv)\<rparr>)"
  have lc: "load_clause (with_status f d) inc = (\<lambda>c. map_option gc (load_clause d inc c))"
    by (simp add: fun_eq_iff with_status_load_clause gc_def)
  have "load_contract (with_status f d) inc m c
      = map_option (\<lambda>v. v\<lparr>kv_clauses := map gc (kv_clauses v)\<rparr>) (load_contract d inc m c)" for c
    by (cases "find_cohort d (contract_cohortId c)";
        cases "those (map (load_clause d inc) (clauses_of d c))")
      (simp_all add: load_contract_def with_status_finds with_status_clauses_of lc
        those_map_map_option load_cohort_def with_status_members_of)
  then show ?thesis by blast
qed

lemma with_status_insert_clause:
  "insert_clause (with_status f d) r =
     (case insert_clause d r of Inl err \<Rightarrow> Inl err | Inr d' \<Rightarrow> Inr (with_status f d'))"
  by (simp add: insert_clause_def with_status_column_values) (simp add: with_status_def)

lemma with_status_clause_create:
  "clause_create e (with_status f d) i t c k u =
     (case clause_create e d i t c k u of
        Inl err \<Rightarrow> Inl err | Inr (d', r) \<Rightarrow> Inr (with_status f d', r))"
  by (auto simp: clause_create_def with_status_column_values with_status_insert_clause Let_def
      split: field.splits sum.splits)

lemma with_status_create_clauses:
  "create_clauses e (with_status f d) cid k cis =
     (case create_clauses e d cid k cis of Inl err \<Rightarrow> Inl err | Inr d' \<Rightarrow> Inr (with_status f d'))"
  by (induction cis arbitrary: d k) (auto simp: with_status_clause_create split: sum.splits)

lemma with_status_insert_contract:
  "insert_contract (with_status f d) r =
     (case insert_contract d r of Inl err \<Rightarrow> Inl err | Inr d' \<Rightarrow> Inr (with_status f d'))"
  by (simp add: insert_contract_def with_status_column_values) (simp add: with_status_def)

lemma with_status_contract_create:
  "contract_create e (with_status f d) t h cis =
     (case contract_create e d t h cis of
        Inl err \<Rightarrow> Inl err | Inr (d', r) \<Rightarrow> Inr (with_status f d', r))"
  by (auto simp: contract_create_def with_status_column_values with_status_insert_contract
      with_status_create_clauses Let_def split: field.splits sum.splits)

lemma with_status_contract_update:
  "contract_update e (with_status f d) i t =
     (case contract_update e d i t of Inl err \<Rightarrow> Inl err | Inr d' \<Rightarrow> Inr (with_status f d'))"
  by (auto simp: contract_update_def with_status_finds split: option.splits field.splits)
    (simp_all add: with_status_def set_title_def)

lemma status_blind_get_contracts:
  "res_status (snd (get_contracts (with_status f d))) = res_status (snd (get_contracts d))"
proof -
  obtain g where "load_contract (with_status f d) AmendmentRows False
      = (\<lambda>c. map_option g (load_contract d AmendmentRows False c))"
    using with_status_load_contract [of f d AmendmentRows False] by (auto simp: fun_eq_iff)
  then show ?thesis
    by (cases "those (map (load_contract d AmendmentRows False) (contracts d))")
      (simp_all add: get_contracts_def with_status_tables those_map_map_option)
qed

lemma status_blind_get_contract:
  "res_status (snd (get_contract (with_status f d) i)) = res_status (snd (get_contract d i))"
proof -
  obtain g where "\<And>c. load_contract (with_status f d) AmendmentsWithProposedBy True c
      = map_option g (load_contract d AmendmentsWithProposedBy True c)"
    using with_status_load_contract [of f d AmendmentsWithProposedBy True] by auto
  then show ?thesis
    by (simp add: get_contract_def with_status_finds split: option.splits)
qed

lemma status_blind_post_contracts:
  "res_status (snd (post_contracts e (with_status f d) b)) = res_status (snd (post_contracts e d b))"
proof -
  have load: "res_status (snd (case load_contract (with_status f d') NoAmendments False r of
          None \<Rightarrow> (x, Response 500 (ErrorBody m))
        | Some v \<Rightarrow> (y, Response 201 (ContractBody v))))
      = res_status (snd (case load_contract d' NoAmendments False r of
          None \<Rightarrow> (x', Response 500 (ErrorBody m))
        | Some v \<Rightarrow> (y', Response 201 (ContractBody v))))"
    for d' r m and x y x' y' :: db
    using with_status_load_contract [of f d' NoAmendments False]
    by (auto split: option.splits)
  show ?thesis
    by (cases "clauses_or_empty (cb_clauses b)")
      (auto simp: post_contracts_def with_status_contract_create load split: sum.splits)
qed

lemma status_blind_put_contract:
  "res_status (snd (put_contract e (with_status f d) i t)) = res_status (snd (put_contract e d i t))"
proof (cases "contract_update e d i t")
  case (Inl err)
  then show ?thesis by (simp add: put_contract_def with_status_contract_update)
next
  case (Inr d')
  obtain g where "\<And>c. load_contract (with_status f d') NoAmendments False c
      = map_option g (load_contract d' NoAmendments False c)"
    using with_status_load_contract [of f d' NoAmendments False] by auto
  with Inr show ?thesis
    by (cases "find_contract d' i")
      (simp_all add: put_contract_def with_status_contract_update with_status_finds
        split: option.splits)
qed

lemma status_blind_delete_contract:
  "res_status (snd (delete_contract (with_status f d) i)) = res_status (snd (delete_contract d i))"
  by (simp add: delete_contract_char with_status_def)

lemma status_blind_post_clause:
  "res_status (snd (post_clause e (with_status f d) i b)) = res_status (snd (post_clause e d i b))"
  by (auto simp: post_clause_def with_status_clause_create with_status_load_clause
      split: sum.splits option.splits)

lemma status_blind_post_amend:
  "res_status (snd (post_amend e (with_status f d) i b)) = res_status (snd (post_amend e d i b))"
  by (cases "ab_content b"; cases "ab_clauseId b"; cases "ab_userId b")
    (simp_all add: post_amend_def amendment_create_def insert_amendment_def include_proposedBy_def
      with_status_column_values find_user_def with_status_tables Let_def split: option.splits)

lemma handle_status_blind:
  "res_status (snd (handle e (with_status f d) r)) = res_status (snd (handle e d r))"
  by (cases r)
    (simp_all add: status_blind_get_contracts status_blind_get_contract status_blind_post_contracts
      status_blind_put_contract status_blind_delete_contract status_blind_post_clause
      status_blind_post_amend)

section \<open>Deciding an amendment\<close>

text \<open>
  C1, as the router has it. No request changes a stored amendment: whatever its status
  and whatever the request, the amendment is stored unchanged afterwards, so there is no
  transition out of \<^verbatim>\<open>ACCEPTED\<close> or \<^verbatim>\<open>REJECTED\<close> (nor out of \<^verbatim>\<open>PENDING\<close>). The router
  has no route that decides an amendment and no failure for an illegal transition: it
  answers with status 200, 201, 204, 404 or 500, and the status of the answer does not
  depend on the statuses of the stored amendments.
\<close>

theorem amendment_status_never_changes:
  assumes "handle e d r = (d', res)"
  shows "(\<exists>as. amendments d' = amendments d @ as)
       \<and> res_status res \<in> {200, 201, 204, 404, 500}
       \<and> res_status (snd (handle e (with_status f d) r)) = res_status res"
  using handle_keeps_rows [OF assms] handle_res_status [of e d r] handle_status_blind [of e f d r]
    assms
  by simp

theorem amendment_status_never_changes_witness:
  "handle ex_env ex_db_accepted (PutContract ''k1'' (Text ''Rules''))
     = (ex_db_accepted\<lparr>contracts := [ex_contract\<lparr>contract_title := ''Rules'', contract_updatedAt := 7\<rparr>]\<rparr>,
        Response 200 (ContractBody
          \<lparr>kv_row = ex_contract\<lparr>contract_title := ''Rules'', contract_updatedAt := 7\<rparr>,
           kv_clauses = [\<lparr>cv_row = ex_clause, cv_amendments = None,
             cv_createdBy = \<lparr>us_id = ''u1'', us_name = Some ''Ada'', us_email = ''ada@example.org''\<rparr>\<rparr>],
           kv_cohort = \<lparr>hv_row = ex_cohort, hv_members = None\<rparr>\<rparr>))
   \<and> map amendment_status (amendments ex_db_accepted) = [''ACCEPTED'']
   \<and> (\<exists>as. amendments (ex_db_accepted\<lparr>contracts :=
          [ex_contract\<lparr>contract_title := ''Rules'', contract_updatedAt := 7\<rparr>]\<rparr>)
        = amendments ex_db_accepted @ as)
   \<and> res_status (snd (handle ex_env (with_status (\<lambda>a. ''REJECTED'') ex_db_accepted)
        (PutContract ''k1'' (Text ''Rules'')))) = 200"
proof -
  have h: "handle ex_env ex_db_accepted (PutContract ''k1'' (Text ''Rules''))
     = (ex_db_accepted\<lparr>contracts := [ex_contract\<lparr>contract_title := ''Rules'', contract_updatedAt := 7\<rparr>]\<rparr>,
        Response 200 (ContractBody
          \<lparr>kv_row = ex_contract\<lparr>contract_title := ''Rules'', contract_updatedAt := 7\<rparr>,
           kv_clauses = [\<lparr>cv_row = ex_clause, cv_amendments = None,
             cv_createdBy = \<lparr>us_id = ''u1'', us_name = Some ''Ada'', us_email = ''ada@example.org''\<rparr>\<rparr>],
           kv_cohort = \<lparr>hv_row = ex_cohort, hv_members = None\<rparr>\<rparr>))"
    by (simp add: put_contract_def contract_update_def set_title_def find_contract_def load_contract_def
        find_cohort_def clauses_of_def load_clause_def find_user_def select_user_def
        load_cohort_def ex_defs)
  have s: "map amendment_status (amendments ex_db_accepted) = [''ACCEPTED'']"
    by (simp add: ex_defs)
  from amendment_status_never_changes [OF h, of "\<lambda>a. ''REJECTED''"] h s
  show ?thesis by simp
qed

text \<open>
  C1, as the claim states it, fails: nothing is refused because an amendment is already
  decided. Whatever the request, the router gives it the same status code in the
  database where the amendment \<^verbatim>\<open>a1\<close> is \<^verbatim>\<open>ACCEPTED\<close> as in the one where it is
  \<^verbatim>\<open>PENDING\<close>.
\<close>

theorem no_request_refused_for_status:
  "map amendment_status (amendments ex_db_accepted) = [''ACCEPTED'']
   \<and> map amendment_status (amendments ex_db_pending) = [''PENDING'']
   \<and> (\<forall>e r. res_status (snd (handle e ex_db_accepted r))
            = res_status (snd (handle e ex_db_pending r)))"
proof -
  have eq: "ex_db_accepted = with_status (\<lambda>a. ''ACCEPTED'') ex_db_pending"
    by (simp add: with_status_def ex_defs)
  have "res_status (snd (handle e ex_db_accepted r))
      = res_status (snd (handle e ex_db_pending r))" for e r
    unfolding eq by (rule handle_status_blind)
  then show ?thesis by (simp add: ex_defs)
qed

text \<open>
  C2, as the router has it. No request overwrites a clause: whatever the request, and
  whatever amendments are stored, every stored clause is stored unchanged afterwards,
  its content and its \<^verbatim>\<open>updatedAt\<close> included. What the claim says of \<^verbatim>\<open>REJECT\<close> holds of
  every request; no request has the effect it gives to \<^verbatim>\<open>ACCEPT\<close>.
\<close>

theorem clauses_never_overwritten:
  assumes "handle e d r = (d', res)"
  shows "(\<exists>ls. clauses d' = clauses d @ ls)
       \<and> map clause_content (take (length (clauses d)) (clauses d')) = map clause_content (clauses d)
       \<and> map clause_updatedAt (take (length (clauses d)) (clauses d'))
           = map clause_updatedAt (clauses d)"
  using handle_keeps_rows [OF assms] by auto

theorem clauses_never_overwritten_witness:
  "handle (ex_env_at 8 ''a2'') ex_db_pending (PostAmend ''k1'' (ex_amend\<lparr>ab_content := Text ''v3''\<rparr>))
     = (ex_db_pending\<lparr>amendments := [ex_amendment, ex_early\<lparr>amendment_createdAt := 8,
          amendment_updatedAt := 8\<rparr>]\<rparr>,
        Response 201 (AmendmentBody
          \<lparr>av_row = ex_early\<lparr>amendment_createdAt := 8, amendment_updatedAt := 8\<rparr>,
           av_proposedBy = Some \<lparr>us_id = ''u1'', us_name = Some ''Ada'',
             us_email = ''ada@example.org''\<rparr>\<rparr>))
   \<and> clauses (ex_db_pending\<lparr>amendments := [ex_amendment, ex_early\<lparr>amendment_createdAt := 8,
          amendment_updatedAt := 8\<rparr>]\<rparr>) = [ex_clause]
   \<and> map clause_content (clauses ex_db_pending) = [''v1'']"
proof -
  have h: "handle (ex_env_at 8 ''a2'') ex_db_pending
        (PostAmend ''k1'' (ex_amend\<lparr>ab_content := Text ''v3''\<rparr>))
     = (ex_db_pending\<lparr>amendments := [ex_amendment, ex_early\<lparr>amendment_createdAt := 8,
          amendment_updatedAt := 8\<rparr>]\<rparr>,
        Response 201 (AmendmentBody
          \<lparr>av_row = ex_early\<lparr>amendment_createdAt := 8, amendment_updatedAt := 8\<rparr>,
           av_proposedBy = Some \<lparr>us_id = ''u1'', us_name = Some ''Ada'',
             us_email = ''ada@example.org''\<rparr>\<rparr>))"
    by (simp add: post_amend_def amendment_create_def insert_amendment_def amendment_row_def
        amendment_status_default_def include_proposedBy_def find_user_def select_user_def
        column_values_def ex_defs)
  have c: "clauses ex_db_pending = [ex_clause]" "map clause_content (clauses ex_db_pending) = [''v1'']"
    by (simp_all add: ex_defs)
  from clauses_never_overwritten [OF h] c show ?thesis
    using h by simp
qed

text \<open>
  C2, as the claim states it, fails: the amendment \<^verbatim>\<open>a1\<close> of \<open>ex_db_pending\<close> is
  \<^verbatim>\<open>PENDING\<close> and proposes the content \<^verbatim>\<open>v2\<close> for the clause \<^verbatim>\<open>c1\<close>, whose content is
  \<^verbatim>\<open>v1\<close>; whatever the request, the clause is stored unchanged afterwards, so no
  request accepts the amendment.
\<close>

theorem no_request_accepts:
  "clauses ex_db_pending = [ex_clause] \<and> clause_content ex_clause = ''v1''
   \<and> amendments ex_db_pending = [ex_amendment] \<and> amendment_clauseId ex_amendment = clause_id ex_clause
   \<and> amendment_status ex_amendment = ''PENDING'' \<and> amendment_content ex_amendment = ''v2''
   \<and> (\<forall>e r. \<exists>ls. clauses (fst (handle e ex_db_pending r)) = ex_clause # ls)"
proof -
  have "\<exists>ls. clauses (fst (handle e ex_db_pending r)) = ex_clause # ls" for e r
    using handle_keeps_rows [of e ex_db_pending r "fst (handle e ex_db_pending r)"
        "snd (handle e ex_db_pending r)"]
    by (simp add: ex_defs)
  then show ?thesis by (simp add: ex_defs)
qed

section \<open>The amendment workflow\<close>

text \<open>
  C3, as the router has it. When the \<^verbatim>\<open>clauseId\<close> or the \<^verbatim>\<open>userId\<close> of the body does
  not resolve to a stored clause or user, \<^verbatim>\<open>POST /:id/amend\<close> answers with status 500 and
  the body \<^verbatim>\<open>{ error: 'Failed to propose amendment' }\<close>, the answer its \<^verbatim>\<open>catch\<close> gives to
  every failure, and the database is left as it was: no amendment is stored.
\<close>

theorem post_amend_unresolved_500:
  assumes "\<not> resolves (map clause_id (clauses d)) (ab_clauseId b)
         \<or> \<not> resolves (map user_id (users d)) (ab_userId b)"
  shows "post_amend e d i b = (d, Response 500 (ErrorBody ''Failed to propose amendment''))"
  using assms
  by (auto simp: post_amend_def amendment_create_def resolves_def column_values_simps
      split: field.splits)

theorem post_amend_unresolved_500_witness:
  "\<not> resolves (map clause_id (clauses ex_db)) (ab_clauseId (ex_amend\<lparr>ab_clauseId := Text ''c9''\<rparr>))
   \<and> post_amend ex_env ex_db ''k1'' (ex_amend\<lparr>ab_clauseId := Text ''c9''\<rparr>)
       = (ex_db, Response 500 (ErrorBody ''Failed to propose amendment''))"
proof -
  have h: "\<not> resolves (map clause_id (clauses ex_db)) (ab_clauseId (ex_amend\<lparr>ab_clauseId := Text ''c9''\<rparr>))"
    by (simp add: resolves_def ex_defs)
  then have "\<not> resolves (map clause_id (clauses ex_db)) (ab_clauseId (ex_amend\<lparr>ab_clauseId := Text ''c9''\<rparr>))
     \<or> \<not> resolves (map user_id (users ex_db)) (ab_userId (ex_amend\<lparr>ab_clauseId := Text ''c9''\<rparr>))"
    by (rule disjI1)
  from h post_amend_unresolved_500 [OF this] show ?thesis by blast
qed

text \<open>
  C3, as the claim states it, fails: proposing an amendment to the unknown clause
  \<^verbatim>\<open>c9\<close> is answered with status 500, not with 404 (the status of NotFound).
\<close>

theorem post_amend_unknown_clause_not_404:
  "res_status (snd (post_amend ex_env ex_db ''k1'' (ex_amend\<lparr>ab_clauseId := Text ''c9''\<rparr>))) = 500
   \<and> res_status (snd (post_amend ex_env ex_db ''k1'' (ex_amend\<lparr>ab_clauseId := Text ''c9''\<rparr>))) \<noteq> 404"
  by (simp add: post_amend_def amendment_create_def column_values_def ex_defs)

text \<open>
  C4. \<^verbatim>\<open>POST /:id/amend\<close> changes no stored row: every table other than
  \<^verbatim>\<open>amendments\<close> is the same before and after (so the content of the target clause is),
  the stored amendments stay as they are, and the call either stores exactly one new
  amendment under a fresh primary key (status 201) or leaves the database as it was.
\<close>

theorem post_amend_frame:
  assumes "post_amend e d i b = (d', r)"
  shows "clauses d' = clauses d \<and> contracts d' = contracts d \<and> users d' = users d
       \<and> cohorts d' = cohorts d \<and> tension_measurements d' = tension_measurements d
       \<and> journal_entries d' = journal_entries d \<and> failure_entries d' = failure_entries d
       \<and> iterations d' = iterations d \<and> cohort_members d' = cohort_members d
       \<and> (\<exists>as. amendments d' = amendments d @ as)
       \<and> (res_status r = 201 \<longrightarrow>
            (\<exists>a p. d' = d\<lparr>amendments := amendments d @ [a]\<rparr>
               \<and> amendment_id a \<notin> set (map amendment_id (amendments d))
               \<and> res_body r = AmendmentBody \<lparr>av_row = a, av_proposedBy = p\<rparr>))
       \<and> (res_status r \<noteq> 201 \<longrightarrow> d' = d)"
  using post_amend_cases [of e d i b] assms by auto

theorem post_amend_frame_witness:
  "post_amend ex_env ex_db ''k1'' ex_amend
     = (ex_db\<lparr>amendments := [ex_amendment]\<rparr>, Response 201 (AmendmentBody ex_amendment_view))
   \<and> res_status (Response 201 (AmendmentBody ex_amendment_view)) = 201
   \<and> clauses (ex_db\<lparr>amendments := [ex_amendment]\<rparr>) = clauses ex_db
   \<and> contracts (ex_db\<lparr>amendments := [ex_amendment]\<rparr>) = contracts ex_db
   \<and> (\<exists>a. ex_db\<lparr>amendments := [ex_amendment]\<rparr> = ex_db\<lparr>amendments := amendments ex_db @ [a]\<rparr>)"
proof -
  have h: "post_amend ex_env ex_db ''k1'' ex_amend
     = (ex_db\<lparr>amendments := [ex_amendment]\<rparr>, Response 201 (AmendmentBody ex_amendment_view))"
    by (rule post_amend_example)
  from post_amend_frame [OF h] h show ?thesis by auto
qed

text \<open>
  C5. An amendment is PENDING when it is created: every amendment that
  \<^verbatim>\<open>POST /:id/amend\<close> adds to the table, and the one it sends back, has the status
  \<^verbatim>\<open>PENDING\<close>; and a row inserted without a status gets \<^verbatim>\<open>PENDING\<close> from the column default.
\<close>

theorem new_amendment_pending:
  assumes "post_amend e d i b = (d', r)"
  shows "(\<forall>a \<in> set (amendments d') - set (amendments d). amendment_status a = ''PENDING'')
       \<and> (\<forall>v. res_body r = AmendmentBody v \<longrightarrow> amendment_status (av_row v) = ''PENDING'')
       \<and> (ins_status x = None \<longrightarrow> amendment_status (amendment_row e x) = ''PENDING'')"
  using post_amend_cases [of e d i b] assms
  by (auto simp: amendment_row_def amendment_status_default_def)

theorem new_amendment_pending_witness:
  "post_amend ex_env ex_db ''k1'' ex_amend
     = (ex_db\<lparr>amendments := [ex_amendment]\<rparr>, Response 201 (AmendmentBody ex_amendment_view))
   \<and> ex_amendment \<in> set (amendments (ex_db\<lparr>amendments := [ex_amendment]\<rparr>)) - set (amendments ex_db)
   \<and> amendment_status ex_amendment = ''PENDING''
   \<and> res_body (Response 201 (AmendmentBody ex_amendment_view)) = AmendmentBody ex_amendment_view
   \<and> amendment_status (av_row ex_amendment_view) = ''PENDING''
   \<and> ins_status \<lparr>ins_id = ''a2'', ins_content = ''v3'', ins_userId = ''u1'', ins_clauseId = ''c1'',
        ins_status = None, ins_createdAt = None, ins_updatedAt = 8\<rparr> = None
   \<and> amendment_status (amendment_row ex_env
        \<lparr>ins_id = ''a2'', ins_content = ''v3'', ins_userId = ''u1'', ins_clauseId = ''c1'',
         ins_status = None, ins_createdAt = None, ins_updatedAt = 8\<rparr>) = ''PENDING''"
proof -
  have h: "post_amend ex_env ex_db ''k1'' ex_amend
     = (ex_db\<lparr>amendments := [ex_amendment]\<rparr>, Response 201 (AmendmentBody ex_amendment_view))"
    by (rule post_amend_example)
  have new: "ex_amendment \<in> set (amendments (ex_db\<lparr>amendments := [ex_amendment]\<rparr>)) - set (amendments ex_db)"
    by (simp add: ex_defs)
  from new_amendment_pending [OF h, of "\<lparr>ins_id = ''a2'', ins_content = ''v3'', ins_userId = ''u1'',
      ins_clauseId = ''c1'', ins_status = None, ins_createdAt = None, ins_updatedAt = 8\<rparr>"] h new
  show ?thesis by auto
qed

text \<open>
  C10. \<^verbatim>\<open>POST /:id/amend\<close> does not look at \<^verbatim>\<open>:id\<close>: the same body gives the same
  database and the same answer under any two contract ids in the path, so nothing checks
  that the clause belongs to the contract named there; and an amendment that is created
  is attached to the \<^verbatim>\<open>clauseId\<close> of the body.
\<close>

theorem post_amend_ignores_path_id:
  "post_amend e d i b = post_amend e d j b
   \<and> (\<forall>d' v. post_amend e d i b = (d', Response 201 (AmendmentBody v)) \<longrightarrow>
         ab_clauseId b = Text (amendment_clauseId (av_row v)) \<and> av_row v \<in> set (amendments d'))"
proof
  show "post_amend e d i b = post_amend e d j b"
    by (simp add: post_amend_def)
  show "\<forall>d' v. post_amend e d i b = (d', Response 201 (AmendmentBody v)) \<longrightarrow>
         ab_clauseId b = Text (amendment_clauseId (av_row v)) \<and> av_row v \<in> set (amendments d')"
    using post_amend_cases [of e d i b] by auto
qed

theorem post_amend_ignores_path_id_witness:
  "find_contract ex_db ''k7'' = None
   \<and> clause_contractId ex_clause = ''k1''
   \<and> post_amend ex_env ex_db ''k7'' ex_amend = post_amend ex_env ex_db ''k1'' ex_amend
   \<and> post_amend ex_env ex_db ''k7'' ex_amend
       = (ex_db\<lparr>amendments := [ex_amendment]\<rparr>, Response 201 (AmendmentBody ex_amendment_view))
   \<and> ab_clauseId ex_amend = Text (amendment_clauseId (av_row ex_amendment_view))
   \<and> av_row ex_amendment_view \<in> set (amendments (ex_db\<lparr>amendments := [ex_amendment]\<rparr>))"
proof -
  have h: "post_amend ex_env ex_db ''k7'' ex_amend
     = (ex_db\<lparr>amendments := [ex_amendment]\<rparr>, Response 201 (AmendmentBody ex_amendment_view))"
    by (rule post_amend_example)
  have other: "find_contract ex_db ''k7'' = None \<and> clause_contractId ex_clause = ''k1''"
    by (simp add: find_contract_def ex_defs)
  from post_amend_ignores_path_id [of ex_env ex_db "''k7''" ex_amend "''k1''"] h other
  show ?thesis by blast
qed

section \<open>Deleting under the foreign keys\<close>




text \<open>
  C7, as the router has it. \<^verbatim>\<open>DELETE /:id\<close> answers 204 and removes the contract with
  that id, and nothing else, exactly when the contract exists and no clause, tension
  measurement, journal entry or failure entry references it. In every other case it
  answers with status 500 and the body \<^verbatim>\<open>{ error: 'Failed to delete contract' }\<close>, and the
  database is left as it was.
\<close>

theorem delete_contract_restricted:
  "delete_contract d i =
     (if i \<in> set (map contract_id (contracts d))
         \<and> i \<notin> set (map clause_contractId (clauses d))
         \<and> i \<notin> set (map tension_contractId (tension_measurements d))
         \<and> i \<notin> set (map journal_contractId (journal_entries d))
         \<and> i \<notin> set (map failure_contractId (failure_entries d))
      then (d\<lparr>contracts := filter (\<lambda>r. contract_id r \<noteq> i) (contracts d)\<rparr>, Response 204 NoBody)
      else (d, Response 500 (ErrorBody ''Failed to delete contract'')))"
proof -
  have blocked: "(\<exists>fk \<in> set foreign_keys. fk_on_delete fk = Restrict \<and> referencing d fk Contracts i)
      \<longleftrightarrow> i \<in> set (map clause_contractId (clauses d))
        \<or> i \<in> set (map tension_contractId (tension_measurements d))
        \<or> i \<in> set (map journal_contractId (journal_entries d))
        \<or> i \<in> set (map failure_contractId (failure_entries d))"
    by (simp add: foreign_keys_def mk_fk_def referencing_def column_values_def)
  have no_cascade: "fold (cascade_delete Contracts i) foreign_keys d = d"
    by (simp add: cascade_fold)
  have removed: "delete_where d Contracts Id i
      = d\<lparr>contracts := filter (\<lambda>r. contract_id r \<noteq> i) (contracts d)\<rparr>"
    by (simp add: delete_where_def)
  show ?thesis
    unfolding delete_contract_def delete_row_def blocked no_cascade removed
    by (simp add: column_values_simps)
qed

theorem delete_contract_restricted_witness:
  "delete_contract ex_db_bare ''k1'' = (ex_db_bare\<lparr>contracts := []\<rparr>, Response 204 NoBody)
   \<and> ''k1'' \<in> set (map clause_contractId (clauses ex_db))
   \<and> delete_contract ex_db ''k1'' = (ex_db, Response 500 (ErrorBody ''Failed to delete contract''))"
  using delete_contract_restricted [of ex_db_bare "''k1''"]
    delete_contract_restricted [of ex_db "''k1''"]
  by (simp add: ex_defs)

text \<open>
  C7, as the claim states it, fails twice. The contract \<^verbatim>\<open>k1\<close> of \<open>ex_db\<close> owns a
  clause: the delete is refused with status 500, not 409 (the status of
  ConstraintViolation). The contract \<^verbatim>\<open>k1\<close> of \<open>ex_db_tension\<close> owns no clause, but a
  tension measurement references it: the delete does not succeed.
\<close>

theorem delete_contract_without_clauses_fails:
  "clauses_of ex_db ex_contract = [ex_clause]
   \<and> res_status (snd (delete_contract ex_db ''k1'')) = 500
   \<and> res_status (snd (delete_contract ex_db ''k1'')) \<noteq> 409
   \<and> clauses_of ex_db_tension ex_contract = []
   \<and> find_contract ex_db_tension ''k1'' = Some ex_contract
   \<and> delete_contract ex_db_tension ''k1''
       = (ex_db_tension, Response 500 (ErrorBody ''Failed to delete contract''))"
  by (simp add: delete_contract_def delete_row_def schema_defs clauses_of_def find_contract_def
      ex_defs)

section \<open>Reading a contract\<close>

text \<open>
  C8. \<^verbatim>\<open>GET /:id\<close> answers 404 exactly when no contract has that id. When the contract
  exists, in a database that satisfies the foreign keys of the schema, it answers 200 with
  the contract; all its clauses, in storage order, each with its author and with all its
  amendments, in storage order, each with its proposer; and the cohort with its members,
  in ascending order of user id. The database is not changed.
\<close>

theorem get_contract_404_or_200:
  "(res_status (snd (get_contract d i)) = 404 \<longleftrightarrow> i \<notin> set (map contract_id (contracts d)))
   \<and> (fk_integrity d \<longrightarrow> (\<forall>c. find (\<lambda>c. contract_id c = i) (contracts d) = Some c \<longrightarrow>
        (\<exists>v. get_contract d i = (d, Response 200 (ContractBody v)) \<and> kv_row v = c
           \<and> map cv_row (kv_clauses v) = filter (\<lambda>l. clause_contractId l = i) (clauses d)
           \<and> (\<forall>cv \<in> set (kv_clauses v).
                (\<exists>u. find (\<lambda>u. user_id u = clause_userId (cv_row cv)) (users d) = Some u
                   \<and> cv_createdBy cv
                       = \<lparr>us_id = user_id u, us_name = user_name u, us_email = user_email u\<rparr>)
                \<and> (\<exists>avs. cv_amendments cv = Some avs
                      \<and> map av_row avs
                          = filter (\<lambda>a. amendment_clauseId a = clause_id (cv_row cv)) (amendments d)
                      \<and> (\<forall>av \<in> set avs.
                            \<exists>u. find (\<lambda>u. user_id u = amendment_userId (av_row av)) (users d) = Some u
                               \<and> av_proposedBy av
                                   = Some \<lparr>us_id = user_id u, us_name = user_name u,
                                          us_email = user_email u\<rparr>)))
           \<and> find (\<lambda>h. cohort_id h = contract_cohortId c) (cohorts d) = Some (hv_row (kv_cohort v))
           \<and> (\<exists>ms. hv_members (kv_cohort v) = Some ms
                 \<and> map us_id ms
                     = sort (map snd (filter (\<lambda>m. fst m = contract_cohortId c) (cohort_members d)))
                 \<and> (\<forall>s \<in> set ms. \<exists>u \<in> set (users d).
                        s = \<lparr>us_id = user_id u, us_name = user_name u, us_email = user_email u\<rparr>)))))"
proof (intro conjI impI allI)
  show "res_status (snd (get_contract d i)) = 404 \<longleftrightarrow> i \<notin> set (map contract_id (contracts d))"
    by (rule get_contract_404)
next
  fix c
  assume int: "fk_integrity d" and c: "find (\<lambda>c. contract_id c = i) (contracts d) = Some c"
  from c have fc: "find_contract d i = Some c" and ci: "contract_id c = i"
    by (auto simp: find_contract_def dest: find_SomeD)
  from get_contract_load [OF int fc] obtain v where
    load: "load_contract d AmendmentsWithProposedBy True c = Some v"
    and get: "get_contract d i = (d, Response 200 (ContractBody v))"
    by blast
  note shape = load_contract_shape [OF load]
  from shape ci have rows: "map cv_row (kv_clauses v) = filter (\<lambda>l. clause_contractId l = i) (clauses d)"
    by (simp add: clauses_of_def)
  have each: "(\<exists>u. find (\<lambda>u. user_id u = clause_userId (cv_row cv)) (users d) = Some u
                   \<and> cv_createdBy cv
                       = \<lparr>us_id = user_id u, us_name = user_name u, us_email = user_email u\<rparr>)
        \<and> (\<exists>avs. cv_amendments cv = Some avs
              \<and> map av_row avs
                  = filter (\<lambda>a. amendment_clauseId a = clause_id (cv_row cv)) (amendments d)
              \<and> (\<forall>av \<in> set avs.
                    \<exists>u. find (\<lambda>u. user_id u = amendment_userId (av_row av)) (users d) = Some u
                       \<and> av_proposedBy av
                           = Some \<lparr>us_id = user_id u, us_name = user_name u,
                                  us_email = user_email u\<rparr>))"
    if "cv \<in> set (kv_clauses v)" for cv
  proof -
    from shape that obtain l where l: "load_clause d AmendmentsWithProposedBy l = Some cv"
      by (auto simp: in_set_conv_nth list_all2_conv_all_nth)
    then have row: "cv_row cv = l" by (rule load_clause_row)
    from load_clause_createdBy [OF l] load_clause_proposedBy [OF l] row show ?thesis
      by (simp add: find_user_def select_user_def amendments_of_def)
  qed
  from shape have cohort: "find (\<lambda>h. cohort_id h = contract_cohortId c) (cohorts d)
      = Some (hv_row (kv_cohort v))"
    and mem: "hv_members (kv_cohort v) = Some (members_of d (hv_row (kv_cohort v)))"
    by (simp_all add: find_cohort_def)
  from cohort have hid: "cohort_id (hv_row (kv_cohort v)) = contract_cohortId c"
    by (auto dest: find_SomeD)
  from members_of_integrity [OF int, of "hv_row (kv_cohort v)"] hid mem
  have members: "\<exists>ms. hv_members (kv_cohort v) = Some ms
         \<and> map us_id ms
             = sort (map snd (filter (\<lambda>m. fst m = contract_cohortId c) (cohort_members d)))
         \<and> (\<forall>s \<in> set ms. \<exists>u \<in> set (users d).
                s = \<lparr>us_id = user_id u, us_name = user_name u, us_email = user_email u\<rparr>)"
    by (simp add: select_user_def)
  from get shape rows each cohort members
  show "\<exists>v. get_contract d i = (d, Response 200 (ContractBody v)) \<and> kv_row v = c
           \<and> map cv_row (kv_clauses v) = filter (\<lambda>l. clause_contractId l = i) (clauses d)
           \<and> (\<forall>cv \<in> set (kv_clauses v).
                (\<exists>u. find (\<lambda>u. user_id u = clause_userId (cv_row cv)) (users d) = Some u
                   \<and> cv_createdBy cv
                       = \<lparr>us_id = user_id u, us_name = user_name u, us_email = user_email u\<rparr>)
                \<and> (\<exists>avs. cv_amendments cv = Some avs
                      \<and> map av_row avs
                          = filter (\<lambda>a. amendment_clauseId a = clause_id (cv_row cv)) (amendments d)
                      \<and> (\<forall>av \<in> set avs.
                            \<exists>u. find (\<lambda>u. user_id u = amendment_userId (av_row av)) (users d) = Some u
                               \<and> av_proposedBy av
                                   = Some \<lparr>us_id = user_id u, us_name = user_name u,
                                          us_email = user_email u\<rparr>)))
           \<and> find (\<lambda>h. cohort_id h = contract_cohortId c) (cohorts d) = Some (hv_row (kv_cohort v))
           \<and> (\<exists>ms. hv_members (kv_cohort v) = Some ms
                 \<and> map us_id ms
                     = sort (map snd (filter (\<lambda>m. fst m = contract_cohortId c) (cohort_members d)))
                 \<and> (\<forall>s \<in> set ms. \<exists>u \<in> set (users d).
                        s = \<lparr>us_id = user_id u, us_name = user_name u, us_email = user_email u\<rparr>))"
    by blast
qed

theorem get_contract_404_or_200_witness:
  "fk_integrity ex_db_full
   \<and> find (\<lambda>c. contract_id c = ''k1'') (contracts ex_db_full) = Some ex_contract
   \<and> get_contract ex_db_full ''k1'' = (ex_db_full, Response 200 (ContractBody ex_contract_view))
   \<and> map cv_row (kv_clauses ex_contract_view) = [ex_clause]
   \<and> amendments ex_db_full = [ex_late, ex_early]
   \<and> map (map_option (map av_row) \<circ> cv_amendments) (kv_clauses ex_contract_view)
       = [Some [ex_late, ex_early]]
   \<and> cohort_members ex_db_full = [(''h1'', ''u2''), (''h1'', ''u1'')]
   \<and> map_option (map us_id) (hv_members (kv_cohort ex_contract_view)) = Some [''u1'', ''u2'']
   \<and> ''k9'' \<notin> set (map contract_id (contracts ex_db_full))
   \<and> res_status (snd (get_contract ex_db_full ''k9'')) = 404"
proof -
  have c: "find (\<lambda>c. contract_id c = ''k1'') (contracts ex_db_full) = Some ex_contract"
    "''k9'' \<notin> set (map contract_id (contracts ex_db_full))"
    by (simp_all add: ex_defs)
  from get_contract_404_or_200 [of ex_db_full "''k1''"] ex_int_full c(1)
  obtain v where v: "get_contract ex_db_full ''k1'' = (ex_db_full, Response 200 (ContractBody v))"
    "map cv_row (kv_clauses v) = filter (\<lambda>l. clause_contractId l = ''k1'') (clauses ex_db_full)"
    by blast
  from v(1) ex_get_full have "v = ex_contract_view" by simp
  with v have served: "get_contract ex_db_full ''k1''
      = (ex_db_full, Response 200 (ContractBody ex_contract_view))"
    "map cv_row (kv_clauses ex_contract_view)
      = filter (\<lambda>l. clause_contractId l = ''k1'') (clauses ex_db_full)"
    by simp_all
  have shape: "filter (\<lambda>l. clause_contractId l = ''k1'') (clauses ex_db_full) = [ex_clause]"
    "amendments ex_db_full = [ex_late, ex_early]"
    "map (map_option (map av_row) \<circ> cv_amendments) (kv_clauses ex_contract_view)
       = [Some [ex_late, ex_early]]"
    "cohort_members ex_db_full = [(''h1'', ''u2''), (''h1'', ''u1'')]"
    "map_option (map us_id) (hv_members (kv_cohort ex_contract_view)) = Some [''u1'', ''u2'']"
    by (simp_all add: ex_defs)
  from get_contract_404_or_200 [of ex_db_full "''k9''"] c(2)
  have "res_status (snd (get_contract ex_db_full ''k9'')) = 404" by blast
  with ex_int_full c served shape show ?thesis by simp
qed

text \<open>
  C9, as the router has it. For a clause of an existing contract, in a database that
  satisfies the foreign keys of the schema, the history that \<^verbatim>\<open>GET /:id\<close> serves is the
  list of all amendments of the clause in storage order, the query having no
  \<^verbatim>\<open>orderBy\<close>; it is in ascending creation time whenever the amendments table is stored
  in ascending \<^verbatim>\<open>createdAt\<close>; the query changes nothing, and asking again gives the same
  list.
\<close>

theorem history_storage_order:
  assumes "fk_integrity d" and "find_contract d k = Some c"
    and "l \<in> set (map clause_id (clauses_of d c))"
  shows "history d k l = Some (filter (\<lambda>a. amendment_clauseId a = l) (amendments d))
       \<and> fst (get_contract d k) = d
       \<and> history (fst (get_contract d k)) k l = history d k l
       \<and> (sorted (map amendment_createdAt (amendments d)) \<longrightarrow>
            sorted (map amendment_createdAt (filter (\<lambda>a. amendment_clauseId a = l) (amendments d))))"
proof -
  from get_contract_200 [OF assms(1,2)] obtain v where
    v: "get_contract d k = (d, Response 200 (ContractBody v))"
    and rows: "map cv_row (kv_clauses v) = clauses_of d c"
    and ams: "\<forall>cv \<in> set (kv_clauses v).
       map_option (map av_row) (cv_amendments cv) = Some (amendments_of d (cv_row cv))"
    by blast
  from assms(3) rows have "l \<in> set (map (\<lambda>cv. clause_id (cv_row cv)) (kv_clauses v))"
    by (metis (no_types, lifting) list.map_comp comp_def map_eq_conv)
  from find_Some_key [OF this] obtain cv where
    cv: "find (\<lambda>cv. clause_id (cv_row cv) = l) (kv_clauses v) = Some cv"
    "cv \<in> set (kv_clauses v)" "clause_id (cv_row cv) = l"
    by blast
  from ams cv(2) have "map_option (map av_row) (cv_amendments cv) = Some (amendments_of d (cv_row cv))"
    by blast
  with cv(3) have "map_option (map av_row) (cv_amendments cv)
      = Some (filter (\<lambda>a. amendment_clauseId a = l) (amendments d))"
    by (simp add: amendments_of_def)
  with v cv(1) have "history d k l = Some (filter (\<lambda>a. amendment_clauseId a = l) (amendments d))"
    by (simp add: history_def)
  moreover have "fst (get_contract d k) = d"
    by (rule get_contract_db)
  moreover have "sorted (map amendment_createdAt (filter (\<lambda>a. amendment_clauseId a = l) (amendments d)))"
    if "sorted (map amendment_createdAt (amendments d))"
    using that by (rule sorted_filter)
  ultimately show ?thesis by simp
qed

theorem history_storage_order_witness:
  "fk_integrity (ex_db\<lparr>amendments := [ex_early, ex_late]\<rparr>)
   \<and> find_contract (ex_db\<lparr>amendments := [ex_early, ex_late]\<rparr>) ''k1'' = Some ex_contract
   \<and> ''c1'' \<in> set (map clause_id (clauses_of (ex_db\<lparr>amendments := [ex_early, ex_late]\<rparr>) ex_contract))
   \<and> sorted (map amendment_createdAt (amendments (ex_db\<lparr>amendments := [ex_early, ex_late]\<rparr>)))
   \<and> history (ex_db\<lparr>amendments := [ex_early, ex_late]\<rparr>) ''k1'' ''c1'' = Some [ex_early, ex_late]
   \<and> sorted (map amendment_createdAt [ex_early, ex_late])"
proof -
  have a: "fk_integrity (ex_db\<lparr>amendments := [ex_early, ex_late]\<rparr>)"
    by (simp add: fk_integrity_iff ex_defs)
  have b: "find_contract (ex_db\<lparr>amendments := [ex_early, ex_late]\<rparr>) ''k1'' = Some ex_contract"
    by (simp add: find_contract_def ex_defs)
  have c: "''c1'' \<in> set (map clause_id (clauses_of (ex_db\<lparr>amendments := [ex_early, ex_late]\<rparr>) ex_contract))"
    by (simp add: clauses_of_def ex_defs)
  have s: "sorted (map amendment_createdAt (amendments (ex_db\<lparr>amendments := [ex_early, ex_late]\<rparr>)))"
    by (simp add: ex_defs)
  have f: "filter (\<lambda>a. amendment_clauseId a = ''c1'') (amendments (ex_db\<lparr>amendments := [ex_early, ex_late]\<rparr>))
      = [ex_early, ex_late]"
    by (simp add: ex_defs)
  from history_storage_order [OF a b c] a b c s f show ?thesis by simp
qed

text \<open>
  C9, as the claim states it, fails: in \<open>ex_db_unordered\<close> the amendment created at
  time 9 is stored before the one created at time 3, and the history of the clause comes
  in that order. The router itself builds this database from \<open>ex_db\<close>, by two
  \<^verbatim>\<open>POST /:id/amend\<close> between which the clock steps back.
\<close>

theorem history_not_by_creation_time:
  "fst (handle (ex_env_at 3 ''a2'')
          (fst (handle (ex_env_at 9 ''a1'') ex_db (PostAmend ''k1'' ex_amend)))
          (PostAmend ''k1'' (ex_amend\<lparr>ab_content := Text ''v3''\<rparr>))) = ex_db_unordered
   \<and> history ex_db_unordered ''k1'' ''c1'' = Some [ex_late, ex_early]
   \<and> map amendment_createdAt [ex_late, ex_early] = [9, 3]
   \<and> \<not> sorted (map amendment_createdAt [ex_late, ex_early])"
proof -
  have "fst (handle (ex_env_at 9 ''a1'') ex_db (PostAmend ''k1'' ex_amend))
      = ex_db\<lparr>amendments := [ex_late]\<rparr>"
    by (simp add: post_amend_def amendment_create_def insert_amendment_def amendment_row_def
        amendment_status_default_def include_proposedBy_def find_user_def column_values_def
        ex_defs)
  moreover have "fst (handle (ex_env_at 3 ''a2'') (ex_db\<lparr>amendments := [ex_late]\<rparr>)
          (PostAmend ''k1'' (ex_amend\<lparr>ab_content := Text ''v3''\<rparr>))) = ex_db_unordered"
    by (simp add: post_amend_def amendment_create_def insert_amendment_def amendment_row_def
        amendment_status_default_def include_proposedBy_def find_user_def column_values_def
        ex_defs)
  moreover have "history ex_db_unordered ''k1'' ''c1'' = Some [ex_late, ex_early]"
    by (simp add: history_def get_contract_def find_contract_def load_contract_def find_cohort_def
        clauses_of_def load_clause_def find_user_def amendments_of_def include_proposedBy_def
        select_user_def load_cohort_def members_of_def ex_defs)
  moreover have "map amendment_createdAt [ex_late, ex_early] = [9, 3]"
    by (simp add: ex_defs)
  ultimately show ?thesis by simp
qed

end
